theory Spec2Isabelle
  imports Complex_Main "HOL-Library.Log_Nat"
begin

section \<open>Single-precision arithmetic\<close>

text \<open>
  The program computes with C++ \<^verbatim>\<open>float\<close> (IEEE-754 binary32). A \<open>float\<close> is modelled by
  the real number it denotes, and every arithmetic operation rounds its exact result to
  the nearest binary32 number, ties to even: 24 significant bits, with the exponent held
  at \<open>-126\<close> for subnormal results. Infinities and NaN are not represented, so a result
  beyond the binary32 range is rounded as if the exponent range were unbounded above.
\<close>

type_synonym float = real

definition rne :: "real \<Rightarrow> int" where
  "rne r = (let f = \<lfloor>r\<rfloor>; d = r - of_int f in
     if d < 1 / 2 then f
     else if 1 / 2 < d then f + 1
     else if even f then f else f + 1)"

text \<open>The binary exponent of a positive real \<open>a\<close>: the \<open>e\<close> with \<open>2^e \<le> a < 2^(e+1)\<close>.\<close>

definition expo :: "real \<Rightarrow> int" where
  "expo a = (if 1 \<le> a then int (floorlog 2 (nat \<lfloor>a\<rfloor>)) - 1
             else - int (floorlog 2 (nat (\<lceil>1 / a\<rceil> - 1))))"

definition fl32 :: "real \<Rightarrow> float" where
  "fl32 x = (if x = 0 then 0 else
     let e = max (expo \<bar>x\<bar>) (- 126); u = 2 powi (e - 23)
     in of_int (rne (x / u)) * u)"

definition fadd :: "float \<Rightarrow> float \<Rightarrow> float" where
  "fadd a b = fl32 (a + b)"

definition fsub :: "float \<Rightarrow> float \<Rightarrow> float" where
  "fsub a b = fl32 (a - b)"

definition fmul :: "float \<Rightarrow> float \<Rightarrow> float" where
  "fmul a b = fl32 (a * b)"

definition fdiv :: "float \<Rightarrow> float \<Rightarrow> float" where
  "fdiv a b = fl32 (a / b)"

text \<open>Conversion of an \<^verbatim>\<open>int\<close> to \<^verbatim>\<open>float\<close>, as in \<^verbatim>\<open>bottom() > windowHeight\<close>.\<close>

definition float_of_int :: "int \<Rightarrow> float" where
  "float_of_int n = fl32 (of_int n)"

section \<open>Constants\<close>

definition windowWidth :: int where "windowWidth = 800"
definition windowHeight :: int where "windowHeight = 600"

definition ballRadius :: float where "ballRadius = 10"

text \<open>The literal \<^verbatim>\<open>0.4f\<close> is the binary32 number nearest to \<open>4/10\<close>.\<close>

definition ballVelocity :: float where "ballVelocity = fl32 (4 / 10)"

definition paddleWidth :: float where "paddleWidth = 60"
definition paddleHeight :: float where "paddleHeight = 20"
definition paddleVelocity :: float where "paddleVelocity = 1"

definition blockWidth :: float where "blockWidth = 60"
definition blockHeight :: float where "blockHeight = 20"
definition countBlocksX :: nat where "countBlocksX = 11"
definition countBlocksY :: nat where "countBlocksY = 4"

definition ftStep :: float where "ftStep = 1"
definition ftSlice :: float where "ftSlice = 1"

section \<open>Shapes and entities\<close>

text \<open>
  Of the SFML shapes only what the simulation reads and writes is kept: the position,
  and the radius or the size. Every shape's origin is set to its centre, so the position
  is the centre. \<^verbatim>\<open>Vector2f * float\<close> and \<^verbatim>\<open>move\<close> work per component.
\<close>

record Vector2f =
  vec_x :: float
  vec_y :: float

definition vec_scale :: "Vector2f \<Rightarrow> float \<Rightarrow> Vector2f" where
  "vec_scale v m = \<lparr>vec_x = fmul (vec_x v) m, vec_y = fmul (vec_y v) m\<rparr>"

definition vec_move :: "Vector2f \<Rightarrow> Vector2f \<Rightarrow> Vector2f" where
  "vec_move p off = \<lparr>vec_x = fadd (vec_x p) (vec_x off), vec_y = fadd (vec_y p) (vec_y off)\<rparr>"

record CircleShape =
  circle_position :: Vector2f
  circle_radius :: float

record RectangleShape =
  rect_position :: Vector2f
  rect_size :: Vector2f

record Ball =
  ball_shape :: CircleShape
  ball_velocity :: Vector2f

record Rectangle =
  shape :: RectangleShape

record Paddle = Rectangle +
  velocity :: Vector2f

record Brick = Rectangle +
  destroyed :: bool

subsection \<open>Ball\<close>

definition mk_Ball :: "float \<Rightarrow> float \<Rightarrow> Ball" where
  "mk_Ball mX mY =
     \<lparr>ball_shape = \<lparr>circle_position = \<lparr>vec_x = mX, vec_y = mY\<rparr>, circle_radius = ballRadius\<rparr>,
      ball_velocity = \<lparr>vec_x = - ballVelocity, vec_y = - ballVelocity\<rparr>\<rparr>"

definition ball_x :: "Ball \<Rightarrow> float" where
  "ball_x b = vec_x (circle_position (ball_shape b))"

definition ball_y :: "Ball \<Rightarrow> float" where
  "ball_y b = vec_y (circle_position (ball_shape b))"

definition ball_left :: "Ball \<Rightarrow> float" where
  "ball_left b = fsub (ball_x b) (circle_radius (ball_shape b))"

definition ball_right :: "Ball \<Rightarrow> float" where
  "ball_right b = fadd (ball_x b) (circle_radius (ball_shape b))"

definition ball_top :: "Ball \<Rightarrow> float" where
  "ball_top b = fsub (ball_y b) (circle_radius (ball_shape b))"

definition ball_bottom :: "Ball \<Rightarrow> float" where
  "ball_bottom b = fadd (ball_y b) (circle_radius (ball_shape b))"

definition ball_setPosition :: "Vector2f \<Rightarrow> Ball \<Rightarrow> Ball" where
  "ball_setPosition p b = b\<lparr>ball_shape := (ball_shape b)\<lparr>circle_position := p\<rparr>\<rparr>"

definition resetBall :: "Ball \<Rightarrow> Ball" where
  "resetBall b =
     (let b1 = ball_setPosition
                 \<lparr>vec_x = float_of_int (windowWidth div 2),
                  vec_y = float_of_int (windowHeight div 2)\<rparr> b
      in b1\<lparr>ball_velocity := (ball_velocity b1)\<lparr>vec_y := - ballVelocity\<rparr>\<rparr>)"

text \<open>The ball after \<^verbatim>\<open>shape.move(velocity * mFT)\<close>, the first statement of \<^verbatim>\<open>Ball::update\<close>.\<close>

definition ball_moved :: "float \<Rightarrow> Ball \<Rightarrow> Ball" where
  "ball_moved mFT b =
     ball_setPosition (vec_move (circle_position (ball_shape b)) (vec_scale (ball_velocity b) mFT)) b"

text \<open>
  \<^verbatim>\<open>Ball::update\<close>. The statement guarded by \<^verbatim>\<open>bottom() > windowHeight\<close> assigns
  \<^verbatim>\<open>velocity.y\<close> to itself. The method returns the constant \<^verbatim>\<open>true\<close>, which its only
  caller drops, so the model returns the ball alone.
\<close>

definition Ball_update :: "float \<Rightarrow> Ball \<Rightarrow> Ball" where
  "Ball_update mFT b =
     (let b1 = ball_moved mFT b;
          b2 = (if float_of_int windowHeight < ball_bottom b1
                then b1\<lparr>ball_velocity := (ball_velocity b1)\<lparr>vec_y := vec_y (ball_velocity b1)\<rparr>\<rparr>
                else b1);
          b3 = (if ball_left b2 < float_of_int 0 \<or> float_of_int windowWidth < ball_right b2
                then b2\<lparr>ball_velocity := (ball_velocity b2)\<lparr>vec_x := - vec_x (ball_velocity b2)\<rparr>\<rparr>
                else b2)
      in if ball_top b3 < float_of_int 0
         then b3\<lparr>ball_velocity := (ball_velocity b3)\<lparr>vec_y := - vec_y (ball_velocity b3)\<rparr>\<rparr>
         else b3)"

subsection \<open>Rectangle, Paddle, Brick\<close>

definition rect_x :: "'a Rectangle_scheme \<Rightarrow> float" where
  "rect_x r = vec_x (rect_position (shape r))"

definition rect_y :: "'a Rectangle_scheme \<Rightarrow> float" where
  "rect_y r = vec_y (rect_position (shape r))"

definition rect_left :: "'a Rectangle_scheme \<Rightarrow> float" where
  "rect_left r = fsub (rect_x r) (fdiv (vec_x (rect_size (shape r))) 2)"

definition rect_right :: "'a Rectangle_scheme \<Rightarrow> float" where
  "rect_right r = fadd (rect_x r) (fdiv (vec_x (rect_size (shape r))) 2)"

definition rect_top :: "'a Rectangle_scheme \<Rightarrow> float" where
  "rect_top r = fsub (rect_y r) (fdiv (vec_y (rect_size (shape r))) 2)"

definition rect_bottom :: "'a Rectangle_scheme \<Rightarrow> float" where
  "rect_bottom r = fadd (rect_y r) (fdiv (vec_y (rect_size (shape r))) 2)"

text \<open>
  \<^verbatim>\<open>Vector2f velocity;\<close> has no initialiser: the default constructor of \<^verbatim>\<open>Vector2f\<close>
  sets both components to zero.
\<close>

definition mk_Paddle :: "float \<Rightarrow> float \<Rightarrow> Paddle" where
  "mk_Paddle mX mY =
     \<lparr>shape = \<lparr>rect_position = \<lparr>vec_x = mX, vec_y = mY\<rparr>,
               rect_size = \<lparr>vec_x = paddleWidth, vec_y = paddleHeight\<rparr>\<rparr>,
      velocity = \<lparr>vec_x = 0, vec_y = 0\<rparr>\<rparr>"

definition mk_Brick :: "float \<Rightarrow> float \<Rightarrow> Brick" where
  "mk_Brick mX mY =
     \<lparr>shape = \<lparr>rect_position = \<lparr>vec_x = mX, vec_y = mY\<rparr>,
               rect_size = \<lparr>vec_x = blockWidth, vec_y = blockHeight\<rparr>\<rparr>,
      destroyed = False\<rparr>"

text \<open>
  The keyboard as \<^verbatim>\<open>Keyboard::isKeyPressed\<close> reports it at the moment of a call.
\<close>

record Keys =
  key_Left :: bool
  key_Right :: bool
  key_Escape :: bool
  key_Space :: bool

definition paddle_moved :: "float \<Rightarrow> Paddle \<Rightarrow> Paddle" where
  "paddle_moved mFT p =
     p\<lparr>shape := (shape p)\<lparr>rect_position :=
          vec_move (rect_position (shape p)) (vec_scale (velocity p) mFT)\<rparr>\<rparr>"

definition Paddle_update :: "float \<Rightarrow> Keys \<Rightarrow> Paddle \<Rightarrow> Paddle" where
  "Paddle_update mFT ks p =
     (let p1 = paddle_moved mFT p
      in if key_Left ks \<and> float_of_int 0 < rect_left p1
         then p1\<lparr>velocity := (velocity p1)\<lparr>vec_x := - paddleVelocity\<rparr>\<rparr>
         else if key_Right ks \<and> rect_right p1 < float_of_int windowWidth
         then p1\<lparr>velocity := (velocity p1)\<lparr>vec_x := paddleVelocity\<rparr>\<rparr>
         else p1\<lparr>velocity := (velocity p1)\<lparr>vec_x := float_of_int 0\<rparr>\<rparr>)"

section \<open>Collisions\<close>

text \<open>
  \<^verbatim>\<open>isIntersecting\<close> is a template over any two types with \<^verbatim>\<open>left()\<close>, \<^verbatim>\<open>right()\<close>,
  \<^verbatim>\<open>top()\<close> and \<^verbatim>\<open>bottom()\<close>; the model passes the four edges of each argument.
\<close>

record Edges =
  edge_left :: float
  edge_right :: float
  edge_top :: float
  edge_bottom :: float

definition ball_edges :: "Ball \<Rightarrow> Edges" where
  "ball_edges b = \<lparr>edge_left = ball_left b, edge_right = ball_right b,
                   edge_top = ball_top b, edge_bottom = ball_bottom b\<rparr>"

definition rect_edges :: "'a Rectangle_scheme \<Rightarrow> Edges" where
  "rect_edges r = \<lparr>edge_left = rect_left r, edge_right = rect_right r,
                   edge_top = rect_top r, edge_bottom = rect_bottom r\<rparr>"

definition isIntersecting :: "Edges \<Rightarrow> Edges \<Rightarrow> bool" where
  "isIntersecting mA mB \<longleftrightarrow>
     edge_right mA \<ge> edge_left mB \<and> edge_left mA \<le> edge_right mB \<and>
     edge_bottom mA \<ge> edge_top mB \<and> edge_top mA \<le> edge_bottom mB"

text \<open>
  \<^verbatim>\<open>testCollision(Paddle&, Ball&)\<close> writes to the ball only, so the model returns the ball.
\<close>

definition testCollision_paddle :: "Paddle \<Rightarrow> Ball \<Rightarrow> Ball" where
  "testCollision_paddle mPaddle mBall =
     (if \<not> isIntersecting (rect_edges mPaddle) (ball_edges mBall) then mBall
      else
        let b1 = mBall\<lparr>ball_velocity := (ball_velocity mBall)\<lparr>vec_y := - ballVelocity\<rparr>\<rparr>
        in if ball_x b1 < rect_x mPaddle
           then b1\<lparr>ball_velocity := (ball_velocity b1)\<lparr>vec_x := - ballVelocity\<rparr>\<rparr>
           else b1\<lparr>ball_velocity := (ball_velocity b1)\<lparr>vec_x := ballVelocity\<rparr>\<rparr>)"

text \<open>The local variables of \<^verbatim>\<open>testCollision(Brick&, Ball&)\<close>.\<close>

definition overlapLeft :: "Brick \<Rightarrow> Ball \<Rightarrow> float" where
  "overlapLeft mBrick mBall = fsub (ball_right mBall) (rect_left mBrick)"

definition overlapRight :: "Brick \<Rightarrow> Ball \<Rightarrow> float" where
  "overlapRight mBrick mBall = fsub (rect_right mBrick) (ball_left mBall)"

definition overlapTop :: "Brick \<Rightarrow> Ball \<Rightarrow> float" where
  "overlapTop mBrick mBall = fsub (ball_bottom mBall) (rect_top mBrick)"

definition overlapBottom :: "Brick \<Rightarrow> Ball \<Rightarrow> float" where
  "overlapBottom mBrick mBall = fsub (rect_bottom mBrick) (ball_top mBall)"

definition ballFromLeft :: "Brick \<Rightarrow> Ball \<Rightarrow> bool" where
  "ballFromLeft mBrick mBall \<longleftrightarrow> overlapLeft mBrick mBall < overlapRight mBrick mBall"

definition ballFromTop :: "Brick \<Rightarrow> Ball \<Rightarrow> bool" where
  "ballFromTop mBrick mBall \<longleftrightarrow> overlapTop mBrick mBall < overlapBottom mBrick mBall"

definition minOverlapX :: "Brick \<Rightarrow> Ball \<Rightarrow> float" where
  "minOverlapX mBrick mBall =
     (if ballFromLeft mBrick mBall then overlapLeft mBrick mBall else overlapRight mBrick mBall)"

definition minOverlapY :: "Brick \<Rightarrow> Ball \<Rightarrow> float" where
  "minOverlapY mBrick mBall =
     (if ballFromTop mBrick mBall then overlapTop mBrick mBall else overlapBottom mBrick mBall)"

definition testCollision_brick :: "Brick \<Rightarrow> Ball \<Rightarrow> Brick \<times> Ball" where
  "testCollision_brick mBrick mBall =
     (if \<not> isIntersecting (rect_edges mBrick) (ball_edges mBall) then (mBrick, mBall)
      else
        (mBrick\<lparr>destroyed := True\<rparr>,
         if minOverlapX mBrick mBall < minOverlapY mBrick mBall
         then mBall\<lparr>ball_velocity := (ball_velocity mBall)
                \<lparr>vec_x := (if ballFromLeft mBrick mBall then - ballVelocity else ballVelocity)\<rparr>\<rparr>
         else mBall\<lparr>ball_velocity := (ball_velocity mBall)
                \<lparr>vec_y := (if ballFromTop mBrick mBall then - ballVelocity else ballVelocity)\<rparr>\<rparr>))"

section \<open>The game\<close>

text \<open>
  Of the window only whether it is open is kept: \<^verbatim>\<open>window.close()\<close> closes it, and
  \<^verbatim>\<open>pollEvent\<close> of a closed window reports no event.
\<close>

record Game =
  window_open :: bool
  lastFT :: float
  currentSlice :: float
  running :: bool
  ball :: Ball
  paddle :: Paddle
  bricks :: "Brick list"

text \<open>
  The constructor fills \<^verbatim>\<open>bricks\<close> column by column, \<^verbatim>\<open>iY\<close> running fastest. The
  coordinates are \<^verbatim>\<open>(iX + 1) * (blockWidth + 3) + 22\<close> and
  \<^verbatim>\<open>(iY + 2) * (blockHeight + 3)\<close>, computed in \<^verbatim>\<open>float\<close>.
\<close>

definition brick_at :: "nat \<Rightarrow> nat \<Rightarrow> Brick" where
  "brick_at iX iY =
     mk_Brick
       (fadd (fmul (float_of_int (int iX + 1)) (fadd blockWidth (float_of_int 3))) (float_of_int 22))
       (fmul (float_of_int (int iY + 2)) (fadd blockHeight (float_of_int 3)))"

definition new_Game :: Game where
  "new_Game =
     \<lparr>window_open = True, lastFT = 0, currentSlice = 0, running = False,
      ball = mk_Ball (float_of_int (windowWidth div 2)) (float_of_int (windowHeight div 2)),
      paddle = mk_Paddle (float_of_int (windowWidth div 2)) (float_of_int (windowHeight - 50)),
      bricks = concat (map (\<lambda>iX. map (\<lambda>iY. brick_at iX iY) [0..<countBlocksY]) [0..<countBlocksX])\<rparr>"

subsection \<open>Input phase\<close>

datatype Event = Closed | OtherEvent

fun pollEvents :: "Event list \<Rightarrow> Game \<Rightarrow> Game" where
  "pollEvents [] g = g"
| "pollEvents (event # rest) g =
     (if \<not> window_open g then g
      else if event = Closed then pollEvents rest (g\<lparr>window_open := False\<rparr>)
      else pollEvents rest g)"

definition inputPhase :: "Event list \<Rightarrow> Keys \<Rightarrow> Game \<Rightarrow> Game" where
  "inputPhase evs ks g =
     (let g1 = pollEvents evs g;
          g2 = (if key_Escape ks then g1\<lparr>running := False\<rparr> else g1)
      in if key_Space ks then g2\<lparr>ball := resetBall (ball g2)\<rparr> else g2)"

subsection \<open>Update phase\<close>

text \<open>The range-for over \<^verbatim>\<open>bricks\<close>: every brick is tested in order against the same ball.\<close>

fun testBricks :: "Brick list \<Rightarrow> Ball \<Rightarrow> Brick list \<times> Ball" where
  "testBricks [] mBall = ([], mBall)"
| "testBricks (brick # rest) mBall =
     (let (brick', b1) = testCollision_brick brick mBall;
          (rest', b2) = testBricks rest b1
      in (brick' # rest', b2))"

text \<open>
  One pass of the loop body of \<^verbatim>\<open>updatePhase\<close>, with the keyboard as \<^verbatim>\<open>Paddle::update\<close>
  finds it in this pass.
\<close>

definition simStep :: "Keys \<Rightarrow> Game \<Rightarrow> Game" where
  "simStep ks g =
     (let b1 = Ball_update ftStep (ball g);
          p1 = Paddle_update ftStep ks (paddle g);
          b2 = testCollision_paddle p1 b1;
          (bs, b3) = testBricks (bricks g) b2
      in g\<lparr>ball := b3, paddle := p1, bricks := filter (\<lambda>mBrick. \<not> destroyed mBrick) bs\<rparr>)"

text \<open>
  The keyboard is read anew in every pass, so the loop takes the sequence of keyboard
  states that its successive passes find, and returns what is left of it. In
  single precision \<^verbatim>\<open>currentSlice -= ftSlice\<close> can leave a large \<^verbatim>\<open>currentSlice\<close>
  unchanged, so the loop need not end: it is a partial function.
\<close>

type_synonym Keyboard = "nat \<Rightarrow> Keys"

definition kbd_tail :: "Keyboard \<Rightarrow> Keyboard" where
  "kbd_tail kb = (\<lambda>i. kb (Suc i))"

partial_function (option) updateLoop :: "Keyboard \<Rightarrow> Game \<Rightarrow> (Keyboard \<times> Game) option" where
  "updateLoop kb g =
     (if currentSlice g \<ge> ftSlice
      then updateLoop (kbd_tail kb)
             ((simStep (kb 0) g)\<lparr>currentSlice := fsub (currentSlice g) ftSlice\<rparr>)
      else Some (kb, g))"

definition updatePhase :: "Keyboard \<Rightarrow> Game \<Rightarrow> (Keyboard \<times> Game) option" where
  "updatePhase kb g = updateLoop kb (g\<lparr>currentSlice := fadd (currentSlice g) (lastFT g)\<rparr>)"

subsection \<open>The loop of \<^verbatim>\<open>run\<close>\<close>

text \<open>
  What one iteration of the loop takes from outside: the events \<^verbatim>\<open>pollEvent\<close> delivers,
  the keyboard during the input phase, the keyboard during the passes of the update
  phase, and the frame time measured at the end. \<^verbatim>\<open>drawPhase\<close> changes nothing of the
  game.
\<close>

record FrameInput =
  frame_events :: "Event list"
  frame_keys :: Keys
  frame_keyboard :: Keyboard
  frame_time :: float

definition iteration :: "FrameInput \<Rightarrow> Game \<Rightarrow> Game option" where
  "iteration inp g =
     (case updatePhase (frame_keyboard inp) (inputPhase (frame_events inp) (frame_keys inp) g) of
        None \<Rightarrow> None
      | Some (kb, g1) \<Rightarrow> Some (g1\<lparr>lastFT := frame_time inp\<rparr>))"

partial_function (option) runLoop :: "(nat \<Rightarrow> FrameInput) \<Rightarrow> Game \<Rightarrow> Game option" where
  "runLoop env g =
     (if running g
      then Option.bind (iteration (env 0) g) (\<lambda>g1. runLoop (\<lambda>i. env (Suc i)) g1)
      else Some g)"

definition run :: "(nat \<Rightarrow> FrameInput) \<Rightarrow> Game \<Rightarrow> Game option" where
  "run env g = runLoop env (g\<lparr>running := True\<rparr>)"

section \<open>Notions used by the properties\<close>

text \<open>Both components of the ball's velocity have the magnitude \<open>ballVelocity\<close>.\<close>

definition speed_ok :: "Ball \<Rightarrow> bool" where
  "speed_ok b \<longleftrightarrow>
     \<bar>vec_x (ball_velocity b)\<bar> = ballVelocity \<and> \<bar>vec_y (ball_velocity b)\<bar> = ballVelocity"

text \<open>From \<open>b\<close> to \<open>b'\<close> each velocity component is kept or negated.\<close>

definition sign_only :: "Ball \<Rightarrow> Ball \<Rightarrow> bool" where
  "sign_only b b' \<longleftrightarrow>
     (vec_x (ball_velocity b') = vec_x (ball_velocity b) \<or>
      vec_x (ball_velocity b') = - vec_x (ball_velocity b)) \<and>
     (vec_y (ball_velocity b') = vec_y (ball_velocity b) \<or>
      vec_y (ball_velocity b') = - vec_y (ball_velocity b))"

text \<open>
  The balls the program can hold: a constructed ball, and whatever the four operations
  on a ball make of one, with any argument.
\<close>

inductive reachable_ball :: "Ball \<Rightarrow> bool" where
  created: "reachable_ball (mk_Ball mX mY)"
| updated: "reachable_ball b \<Longrightarrow> reachable_ball (Ball_update mFT b)"
| paddle_tested: "reachable_ball b \<Longrightarrow> reachable_ball (testCollision_paddle mPaddle b)"
| brick_tested: "reachable_ball b \<Longrightarrow> reachable_ball (snd (testCollision_brick mBrick b))"
| reset: "reachable_ball b \<Longrightarrow> reachable_ball (resetBall b)"

text \<open>
  The game's paddle after one \<^verbatim>\<open>paddle.update(ftStep)\<close> for each keyboard state of a list.
\<close>

definition paddle_after :: "Keys list \<Rightarrow> Paddle" where
  "paddle_after kss = foldl (\<lambda>p ks. Paddle_update ftStep ks p) (paddle new_Game) kss"

definition no_keys :: Keys where
  "no_keys = \<lparr>key_Left = False, key_Right = False, key_Escape = False, key_Space = False\<rparr>"

definition idle_keyboard :: Keyboard where
  "idle_keyboard = (\<lambda>i. no_keys)"

text \<open>The entities of a game, without the scheduler's bookkeeping.\<close>

definition entities :: "Game \<Rightarrow> Ball \<times> Paddle \<times> Brick list" where
  "entities g = (ball g, paddle g, bricks g)"

text \<open>\<open>n\<close> simulation steps in a row, each with the next keyboard state.\<close>

fun simSteps :: "nat \<Rightarrow> Keyboard \<Rightarrow> Game \<Rightarrow> Game" where
  "simSteps 0 kb g = g"
| "simSteps (Suc n) kb g = simSteps n (kbd_tail kb) (simStep (kb 0) g)"

fun kbd_drop :: "nat \<Rightarrow> Keyboard \<Rightarrow> Keyboard" where
  "kbd_drop 0 kb = kb"
| "kbd_drop (Suc n) kb = kbd_drop n (kbd_tail kb)"

text \<open>
  A run of frames with the given measured durations: each frame stores its duration in
  \<^verbatim>\<open>lastFT\<close> and runs the update phase.
\<close>

fun feedFrames :: "float list \<Rightarrow> Keyboard \<Rightarrow> Game \<Rightarrow> (Keyboard \<times> Game) option" where
  "feedFrames [] kb g = Some (kb, g)"
| "feedFrames (d # ds) kb g =
     (case updatePhase kb (g\<lparr>lastFT := d\<rparr>) of
        None \<Rightarrow> None
      | Some (kb1, g1) \<Rightarrow> feedFrames ds kb1 g1)"

text \<open>
  No operation on the accumulator rounds: \<open>drain_exact n c\<close> says so of \<open>n\<close> subtractions
  of \<open>ftSlice\<close> from \<open>c\<close>, and \<open>no_rounding c ds\<close> of a run of frames with durations \<open>ds\<close>
  from the accumulator \<open>c\<close>.
\<close>

fun drain_exact :: "nat \<Rightarrow> float \<Rightarrow> bool" where
  "drain_exact 0 c = True"
| "drain_exact (Suc n) c \<longleftrightarrow> fsub c ftSlice = c - ftSlice \<and> drain_exact n (c - ftSlice)"

fun no_rounding :: "float \<Rightarrow> float list \<Rightarrow> bool" where
  "no_rounding c [] = True"
| "no_rounding c (d # ds) \<longleftrightarrow>
     fadd c d = c + d \<and> drain_exact (nat \<lfloor>c + d\<rfloor>) (c + d) \<and>
     no_rounding (c + d - of_int \<lfloor>c + d\<rfloor>) ds"

text \<open>A ball just above the bottom of the window, moving down and right.\<close>

definition falling_ball :: Ball where
  "falling_ball = (mk_Ball 400 590)\<lparr>ball_velocity := \<lparr>vec_x = ballVelocity, vec_y = ballVelocity\<rparr>\<rparr>"

text \<open>
  What holds of the game's paddle throughout: its centre is at an integer \<open>x\<close> between
  30 and 770, it moves left only from 31 or more and right only from 769 or less.
\<close>

definition paddle_inv :: "Paddle \<Rightarrow> bool" where
  "paddle_inv p \<longleftrightarrow>
     of_int \<lfloor>rect_x p\<rfloor> = rect_x p \<and> 30 \<le> rect_x p \<and> rect_x p \<le> 770 \<and>
     (vec_x (velocity p) = 0 \<or> vec_x (velocity p) = - 1 \<and> 31 \<le> rect_x p \<or>
      vec_x (velocity p) = 1 \<and> rect_x p \<le> 769) \<and>
     rect_y p = 550 \<and> vec_y (velocity p) = 0 \<and>
     rect_size (shape p) = \<lparr>vec_x = paddleWidth, vec_y = paddleHeight\<rparr>"

text \<open>The new game with the ball just below the first brick.\<close>

definition hit_game :: Game where
  "hit_game = new_Game\<lparr>ball := mk_Ball 85 66\<rparr>"

text \<open>One iteration in which the window is closed and no key is held.\<close>

definition close_frame :: FrameInput where
  "close_frame = \<lparr>frame_events = [Closed], frame_keys = no_keys,
                   frame_keyboard = idle_keyboard, frame_time = 4\<rparr>"

definition close_env :: "nat \<Rightarrow> FrameInput" where
  "close_env = (\<lambda>i. close_frame)"

text \<open>
  What a run of frames leaves: the rest of the keyboard, the entities and the
  accumulator.
\<close>

definition outcome :: "Keyboard \<times> Game \<Rightarrow> Keyboard \<times> (Ball \<times> Paddle \<times> Brick list) \<times> float" where
  "outcome kg = (fst kg, entities (snd kg), currentSlice (snd kg))"

text \<open>
  The states the game passes through: the constructed game, and what each statement of
  \<^verbatim>\<open>run\<close>, \<^verbatim>\<open>inputPhase\<close> and \<^verbatim>\<open>updatePhase\<close> makes of one.
\<close>

inductive reachable_game :: "Game \<Rightarrow> bool" where
  constructed: "reachable_game new_Game"
| started: "reachable_game g \<Longrightarrow> reachable_game (g\<lparr>running := True\<rparr>)"
| input: "reachable_game g \<Longrightarrow> reachable_game (inputPhase evs ks g)"
| accumulated:
    "reachable_game g \<Longrightarrow> reachable_game (g\<lparr>currentSlice := fadd (currentSlice g) (lastFT g)\<rparr>)"
| stepped:
    "reachable_game g \<Longrightarrow> ftSlice \<le> currentSlice g \<Longrightarrow>
     reachable_game ((simStep ks g)\<lparr>currentSlice := fsub (currentSlice g) ftSlice\<rparr>)"
| timed: "reachable_game g \<Longrightarrow> reachable_game (g\<lparr>lastFT := ft\<rparr>)"

section \<open>Facts about rounding\<close>

text \<open>
  \<open>expo\<close> is the binary exponent, and \<open>rne\<close> rounds to a nearest integer, to the even
  one at a tie.
\<close>

lemma expo_small:
  assumes "0 < a" and "a < 1"
  obtains m where "expo a = - int (floorlog 2 m)" and "0 < m"
    and "real m < 1 / a" and "1 / a \<le> real m + 1"
proof -
  define j where "j = \<lceil>1 / a\<rceil>"
  have "1 < 1 / a" using assms by simp
  then have j: "2 \<le> j" unfolding j_def by (simp add: le_ceiling_iff)
  have b: "of_int (j - 1) < 1 / a" "1 / a \<le> of_int j"
    unfolding j_def using ceiling_correct[of "1 / a"] by simp_all
  define m where "m = nat (j - 1)"
  have r: "real m = of_int (j - 1)" using j by (simp add: m_def)
  show thesis
  proof (rule that[of m])
    show "expo a = - int (floorlog 2 m)" using assms by (simp add: expo_def m_def j_def)
    show "0 < m" using j by (simp add: m_def)
    show "real m < 1 / a" using b(1) r by simp
    show "1 / a \<le> real m + 1" using b(2) r by simp
  qed
qed

lemma real_pow2_le: "2 ^ k \<le> (n::nat) \<Longrightarrow> (2::real) ^ k \<le> real n"
proof -
  assume "2 ^ k \<le> n"
  then have "real (2 ^ k) \<le> real n" by (simp only: of_nat_le_iff)
  then show ?thesis by simp
qed

lemma real_le_pow2: "(n::nat) + 1 \<le> 2 ^ k \<Longrightarrow> real n + 1 \<le> 2 ^ k"
proof -
  assume "n + 1 \<le> 2 ^ k"
  then have "real (n + 1) \<le> real (2 ^ k)" by (simp only: of_nat_le_iff)
  then show ?thesis by simp
qed

lemma expo_bounds:
  assumes "0 < a"
  shows "2 powi (expo a) \<le> a" and "a < 2 powi (expo a + 1)"
proof -
  show "2 powi (expo a) \<le> a"
  proof (cases "1 \<le> a")
    case True
    define n where "n = nat \<lfloor>a\<rfloor>"
    have n: "0 < n" "real n \<le> a" using True by (simp_all add: n_def)
    have "2 ^ (floorlog 2 n - 1) \<le> n" using floorlog_bounds[of n 2] n by simp
    then have "(2::real) ^ (floorlog 2 n - 1) \<le> real n"
      by (rule real_pow2_le)
    then have "(2::real) ^ (floorlog 2 n - 1) \<le> a" using n(2) by linarith
    moreover have "0 < floorlog 2 n" using n by (simp add: floorlog_def)
    ultimately show ?thesis
      using True by (simp add: expo_def n_def[symmetric] power_int_def nat_diff_distrib')
  next
    case False
    then have "a < 1" by simp
    from expo_small[OF assms this]
    obtain m where m: "expo a = - int (floorlog 2 m)" "0 < m" "1 / a \<le> real m + 1"
      by blast
    have "m < 2 ^ floorlog 2 m" using floorlog_bounds[of m 2] m by simp
    then have "m + 1 \<le> 2 ^ floorlog 2 m" by simp
    then have "real m + 1 \<le> 2 ^ floorlog 2 m"
      by (rule real_le_pow2)
    then have "1 / a \<le> 2 ^ floorlog 2 m" using m by linarith
    then have "1 / 2 ^ floorlog 2 m \<le> a"
      using assms by (simp add: field_simps)
    then show ?thesis
      by (simp add: m(1) power_int_minus field_simps)
  qed
  show "a < 2 powi (expo a + 1)"
  proof (cases "1 \<le> a")
    case True
    define n where "n = nat \<lfloor>a\<rfloor>"
    have n: "0 < n" "a < real n + 1" using True by (simp_all add: n_def)
    have "n < 2 ^ floorlog 2 n" using floorlog_bounds[of n 2] n by simp
    then have "n + 1 \<le> 2 ^ floorlog 2 n" by simp
    then have "real n + 1 \<le> 2 ^ floorlog 2 n"
      by (rule real_le_pow2)
    then have "a < 2 ^ floorlog 2 n" using n(2) by linarith
    then show ?thesis
      using True by (simp add: expo_def n_def[symmetric] power_int_def)
  next
    case False
    then have "a < 1" by simp
    from expo_small[OF assms this]
    obtain m where m: "expo a = - int (floorlog 2 m)" "0 < m" "real m < 1 / a"
      by blast
    have f: "0 < floorlog 2 m" using m by (simp add: floorlog_def)
    have "2 ^ (floorlog 2 m - 1) \<le> m" using floorlog_bounds[of m 2] m by simp
    then have "(2::real) ^ (floorlog 2 m - 1) \<le> real m"
      by (rule real_pow2_le)
    then have "(2::real) ^ (floorlog 2 m - 1) < 1 / a" using m(3) by linarith
    then have "a < 1 / 2 ^ (floorlog 2 m - 1)"
      using assms by (simp add: field_simps)
    then have "a < 2 powi (- int (floorlog 2 m - 1))"
      by (simp add: power_int_minus field_simps)
    moreover have "expo a + 1 = - int (floorlog 2 m - 1)" using f m(1) by simp
    ultimately show ?thesis by (simp only:)
  qed
qed

lemma rne_tie_even: "r - of_int \<lfloor>r\<rfloor> = 1 / 2 \<Longrightarrow> even (rne r)"
  by (simp add: rne_def Let_def)

lemma rne_of_int: "rne (of_int m) = m"
  by (simp add: rne_def)

lemma rne_le_int: "r \<le> of_int m \<Longrightarrow> rne r \<le> m"
  unfolding rne_def Let_def
  by (auto simp: floor_le_iff)

lemma rne_nonneg: "0 \<le> r \<Longrightarrow> 0 \<le> rne r"
  unfolding rne_def Let_def by auto

lemma expo_less: 
  assumes "0 < a" "a < 2 ^ k" "0 < k"
  shows "expo a < int k"
proof (cases "1 \<le> a")
  case True
  have "nat \<lfloor>a\<rfloor> < 2 ^ k"
    using assms True by (simp add: nat_less_iff floor_less_iff)
  then have "floorlog 2 (nat \<lfloor>a\<rfloor>) \<le> k"
    by (simp add: floorlog_le_iff)
  then show ?thesis using True by (simp add: expo_def)
next
  case False
  then show ?thesis using assms by (simp add: expo_def)
qed

lemma fl32_nonzero:
  "x \<noteq> 0 \<Longrightarrow> e = max (expo \<bar>x\<bar>) (- 126) \<Longrightarrow>
   fl32 x = of_int (rne (x / 2 powi (e - 23))) * 2 powi (e - 23)"
  by (simp add: fl32_def Let_def)

lemma powi_small: "e \<le> 23 \<Longrightarrow> (2::real) powi (e - 23) = 1 / 2 ^ nat (23 - e)"
  by (simp add: power_int_def field_simps)

lemma fl32_of_int:
  assumes "\<bar>n\<bar> < 2 ^ 24"
  shows "fl32 (of_int n) = of_int n"
proof (cases "n = 0")
  case True
  then show ?thesis by (simp add: fl32_def)
next
  case False
  define e where "e = max (expo \<bar>of_int n\<bar>) (- 126)"
  have "(of_int \<bar>n\<bar> :: real) < 2 ^ 24"
    using assms by (metis of_int_less_numeral_power_cancel_iff)
  then have "expo \<bar>of_int n\<bar> < 24"
    using expo_less[of "\<bar>of_int n\<bar>" 24] False by simp
  then have e: "e \<le> 23" by (simp add: e_def)
  define j where "j = nat (23 - e)"
  have u: "(2::real) powi (e - 23) = 1 / 2 ^ j"
    using e by (simp add: j_def powi_small)
  have "of_int n / (2 powi (e - 23)) = (of_int (n * 2 ^ j) :: real)"
    by (simp add: u)
  then have "rne (of_int n / (2 powi (e - 23))) = n * 2 ^ j"
    using rne_of_int by metis
  then have "fl32 (of_int n) = of_int (n * 2 ^ j) * (1 / 2 ^ j)"
    using fl32_nonzero[of "of_int n" e] False e_def u by simp
  then show ?thesis by simp
qed

lemma fl32_nonneg:
  assumes "0 \<le> x"
  shows "0 \<le> fl32 x"
proof (cases "x = 0")
  case True
  then show ?thesis by (simp add: fl32_def)
next
  case False
  define e where "e = max (expo \<bar>x\<bar>) (- 126)"
  have "0 \<le> x / 2 powi (e - 23)" using assms by simp
  then have "0 \<le> rne (x / 2 powi (e - 23))" by (rule rne_nonneg)
  then show ?thesis
    using fl32_nonzero[OF False e_def] by simp
qed

lemma fl32_le_int:
  assumes "x \<le> of_int n" "0 \<le> n" "n < 2 ^ 24"
  shows "fl32 x \<le> of_int n"
proof (cases "x \<le> 0")
  case True
  show ?thesis
  proof (cases "x = 0")
    case True
    then show ?thesis using assms by (simp add: fl32_def)
  next
    case False
    define e where "e = max (expo \<bar>x\<bar>) (- 126)"
    have "x / 2 powi (e - 23) \<le> of_int 0" using True by (simp add: divide_nonpos_pos)
    then have "rne (x / 2 powi (e - 23)) \<le> 0" by (rule rne_le_int)
    then have "fl32 x \<le> 0"
      using fl32_nonzero[OF False e_def] by (simp add: mult_nonpos_nonneg)
    then show ?thesis using assms by simp
  qed
next
  case False
  then have pos: "0 < x" by simp
  define e where "e = max (expo \<bar>x\<bar>) (- 126)"
  have "(of_int n :: real) < 2 ^ 24"
    using assms by (metis of_int_less_numeral_power_cancel_iff)
  then have "x < 2 ^ 24"
    using assms by linarith
  then have "expo \<bar>x\<bar> < 24"
    using expo_less[of "\<bar>x\<bar>" 24] pos by simp
  then have e: "e \<le> 23" by (simp add: e_def)
  define j where "j = nat (23 - e)"
  have u: "(2::real) powi (e - 23) = 1 / 2 ^ j"
    using e by (simp add: j_def powi_small)
  have "x / (2 powi (e - 23)) \<le> of_int (n * 2 ^ j)"
    using assms by (simp add: u)
  then have "rne (x / (2 powi (e - 23))) \<le> n * 2 ^ j"
    by (rule rne_le_int)
  then have "(of_int (rne (x / (2 powi (e - 23)))) :: real) \<le> of_int (n * 2 ^ j)"
    by linarith
  then have "of_int (rne (x / (2 powi (e - 23)))) * (1 / 2 ^ j) \<le> (of_int n :: real)"
    by (simp add: field_simps)
  then show ?thesis
    using fl32_nonzero[of x e] pos e_def u by simp
qed

lemma rne_error: "\<bar>of_int (rne r) - r\<bar> \<le> 1 / 2"
  unfolding rne_def Let_def by (auto simp: abs_if) linarith+

lemma fl32_error:
  assumes "\<bar>z\<bar> < 1024"
  shows "\<bar>fl32 z - z\<bar> \<le> 1 / 2 ^ 15"
proof (cases "z = 0")
  case True
  then show ?thesis by (simp add: fl32_def)
next
  case False
  define e where "e = max (expo \<bar>z\<bar>) (- 126)"
  define u :: real where "u = 2 powi (e - 23)"
  have "expo \<bar>z\<bar> < 10"
    using expo_less[of "\<bar>z\<bar>" 10] assms False by simp
  then have "e - 23 \<le> - 14" by (simp add: e_def)
  then have "u \<le> 2 powi (- 14)"
    unfolding u_def by (intro power_int_increasing) simp_all
  then have u: "u \<le> 1 / 2 ^ 14" by (simp add: power_int_def field_simps)
  have p: "0 < u" by (simp add: u_def)
  have "fl32 z - z = (of_int (rne (z / u)) - z / u) * u"
    using fl32_nonzero[OF False e_def] p by (simp add: u_def field_simps)
  then have "\<bar>fl32 z - z\<bar> = \<bar>of_int (rne (z / u)) - z / u\<bar> * u"
    using p by (simp add: abs_mult)
  also have "\<dots> \<le> (1 / 2) * u"
    using rne_error[of "z / u"] p by (intro mult_right_mono) simp_all
  also have "\<dots> \<le> 1 / 2 ^ 15" using u by simp
  finally show ?thesis .
qed

lemma fl32_0: "fl32 0 = 0"
  by (simp add: fl32_def)

lemma fl32_1: "fl32 1 = 1"
  using fl32_of_int[of 1] by simp

lemma fl32_numeral: "numeral k < (2::int) ^ 24 \<Longrightarrow> fl32 (numeral k) = numeral k"
  using fl32_of_int[of "numeral k"] by simp

lemma fl32_neg_numeral: "numeral k < (2::int) ^ 24 \<Longrightarrow> fl32 (- numeral k) = - numeral k"
  using fl32_of_int[of "- numeral k"] by simp

lemmas fl32_exact = fl32_0 fl32_1 fl32_numeral fl32_neg_numeral

lemma float_of_int_exact: "\<bar>n\<bar> < 2 ^ 24 \<Longrightarrow> float_of_int n = of_int n"
  by (simp add: float_of_int_def fl32_of_int)

lemma float_of_int_0: "float_of_int 0 = 0"
  by (simp add: float_of_int_def fl32_0)

lemma float_of_int_windowWidth: "float_of_int windowWidth = 800"
  by (simp add: float_of_int_exact windowWidth_def)

lemma float_of_int_windowHeight: "float_of_int windowHeight = 600"
  by (simp add: float_of_int_exact windowHeight_def)

section \<open>Constants and geometry, evaluated\<close>

lemma ballVelocity_value: "ballVelocity = 13421773 / 33554432"
  by (simp add: ballVelocity_def fl32_def expo_def rne_def compute_floorlog)

lemma ballVelocity_pos: "0 < ballVelocity"
  by (simp add: ballVelocity_value)

lemmas float_ops = fadd_def fsub_def fmul_def fdiv_def

lemmas ball_geometry = ball_x_def ball_y_def ball_left_def ball_right_def ball_top_def
  ball_bottom_def ball_edges_def

lemmas rect_geometry = rect_x_def rect_y_def rect_left_def rect_right_def rect_top_def
  rect_bottom_def rect_edges_def

section \<open>The intersection test\<close>

text \<open>
  Claim C9. \<^verbatim>\<open>isIntersecting\<close> is symmetric in its two arguments, and its comparisons
  are inclusive: two entities of which one's right edge equals the other's left edge
  (or one's bottom edge the other's top edge), and whose extents overlap on the other
  axis, intersect.
\<close>

theorem isIntersecting_symmetric_inclusive:
  "isIntersecting mA mB = isIntersecting mB mA \<and>
   (edge_right mA = edge_left mB \<and> edge_left mA \<le> edge_right mA \<and>
    edge_left mB \<le> edge_right mB \<and>
    edge_bottom mA \<ge> edge_top mB \<and> edge_top mA \<le> edge_bottom mB
      \<longrightarrow> isIntersecting mA mB) \<and>
   (edge_bottom mA = edge_top mB \<and> edge_top mA \<le> edge_bottom mA \<and>
    edge_top mB \<le> edge_bottom mB \<and>
    edge_right mA \<ge> edge_left mB \<and> edge_left mA \<le> edge_right mB
      \<longrightarrow> isIntersecting mA mB)"
  by (auto simp: isIntersecting_def)

theorem isIntersecting_symmetric_inclusive_witness:
  "edge_right (rect_edges (mk_Brick 100 50)) = edge_left (ball_edges (mk_Ball 140 50)) \<and>
   isIntersecting (rect_edges (mk_Brick 100 50)) (ball_edges (mk_Ball 140 50)) \<and>
   isIntersecting (ball_edges (mk_Ball 140 50)) (rect_edges (mk_Brick 100 50))"
  using isIntersecting_symmetric_inclusive
    [of "rect_edges (mk_Brick 100 50)" "ball_edges (mk_Ball 140 50)"]
  by (auto simp: rect_geometry ball_geometry mk_Brick_def mk_Ball_def float_ops fl32_exact
      blockWidth_def blockHeight_def ballRadius_def)

section \<open>Collision responses\<close>

lemmas brick_locals = overlapLeft_def overlapRight_def overlapTop_def overlapBottom_def
  ballFromLeft_def ballFromTop_def minOverlapX_def minOverlapY_def

text \<open>
  Claim C5. When paddle and ball do not intersect, \<^verbatim>\<open>testCollision(Paddle&, Ball&)\<close>
  leaves the ball as it is. When they intersect, the ball's vertical velocity becomes
  \<open>- ballVelocity\<close> (upward), and the horizontal velocity becomes \<open>- ballVelocity\<close> if
  the ball's centre is left of the paddle's centre and \<open>ballVelocity\<close> otherwise; the
  ball is not moved. With the paddle at \<open>x = 400\<close> and an intersecting ball at
  \<open>x = 380\<close> the velocity becomes \<open>(- ballVelocity, - ballVelocity)\<close>, where
  \<open>ballVelocity\<close> is the single-precision \<open>0.4\<close>.
\<close>

theorem testCollision_paddle_spec:
  "(\<not> isIntersecting (rect_edges mPaddle) (ball_edges mBall) \<longrightarrow>
      testCollision_paddle mPaddle mBall = mBall) \<and>
   (isIntersecting (rect_edges mPaddle) (ball_edges mBall) \<longrightarrow>
      ball_shape (testCollision_paddle mPaddle mBall) = ball_shape mBall \<and>
      vec_y (ball_velocity (testCollision_paddle mPaddle mBall)) = - ballVelocity \<and>
      vec_x (ball_velocity (testCollision_paddle mPaddle mBall)) =
        (if ball_x mBall < rect_x mPaddle then - ballVelocity else ballVelocity)) \<and>
   (isIntersecting (rect_edges mPaddle) (ball_edges mBall) \<and>
    rect_x mPaddle = 400 \<and> ball_x mBall = 380 \<longrightarrow>
      ball_velocity (testCollision_paddle mPaddle mBall) =
        \<lparr>vec_x = - ballVelocity, vec_y = - ballVelocity\<rparr>)"
  by (simp add: testCollision_paddle_def Let_def ball_x_def)

theorem testCollision_paddle_spec_witness:
  "isIntersecting (rect_edges (mk_Paddle 400 550)) (ball_edges (mk_Ball 380 535)) \<and>
   rect_x (mk_Paddle 400 550) = 400 \<and> ball_x (mk_Ball 380 535) = 380 \<and>
   ball_velocity (testCollision_paddle (mk_Paddle 400 550) (mk_Ball 380 535)) =
     \<lparr>vec_x = - (13421773 / 33554432), vec_y = - (13421773 / 33554432)\<rparr> \<and>
   \<not> isIntersecting (rect_edges (mk_Paddle 400 550)) (ball_edges (mk_Ball 380 300)) \<and>
   testCollision_paddle (mk_Paddle 400 550) (mk_Ball 380 300) = mk_Ball 380 300"
proof -
  have i: "isIntersecting (rect_edges (mk_Paddle 400 550)) (ball_edges (mk_Ball 380 535))"
    by (simp add: isIntersecting_def rect_geometry ball_geometry mk_Paddle_def mk_Ball_def
        float_ops fl32_exact paddleWidth_def paddleHeight_def ballRadius_def)
  have n: "\<not> isIntersecting (rect_edges (mk_Paddle 400 550)) (ball_edges (mk_Ball 380 300))"
    by (simp add: isIntersecting_def rect_geometry ball_geometry mk_Paddle_def mk_Ball_def
        float_ops fl32_exact paddleWidth_def paddleHeight_def ballRadius_def)
  have x: "rect_x (mk_Paddle 400 550) = 400 \<and> ball_x (mk_Ball 380 535) = 380"
    by (simp add: rect_x_def ball_x_def mk_Paddle_def mk_Ball_def)
  show ?thesis
    using i n x testCollision_paddle_spec [of "mk_Paddle 400 550" "mk_Ball 380 535"]
      testCollision_paddle_spec [of "mk_Paddle 400 550" "mk_Ball 380 300"]
    by (simp add: ballVelocity_value)
qed

lemma brick_100_50: 
  "rect_left (mk_Brick 100 50) = 70" "rect_right (mk_Brick 100 50) = 130"
  "rect_top (mk_Brick 100 50) = 40" "rect_bottom (mk_Brick 100 50) = 60"
  by (simp_all add: rect_geometry mk_Brick_def float_ops fl32_exact blockWidth_def blockHeight_def)

lemma ball_edges_eval:
  "ball_left (mk_Ball mX mY) = fl32 (mX - 10)" "ball_right (mk_Ball mX mY) = fl32 (mX + 10)"
  "ball_top (mk_Ball mX mY) = fl32 (mY - 10)" "ball_bottom (mk_Ball mX mY) = fl32 (mY + 10)"
  by (simp_all add: ball_geometry mk_Ball_def float_ops ballRadius_def)

text \<open>
  Claim C4, as stated, fails: the velocity component of the axis with the smaller minimal
  overlap is not always flipped. For the brick at \<open>(100, 50)\<close> and the ball at \<open>(65, 50)\<close>
  with velocity \<open>(- ballVelocity, - ballVelocity)\<close>, the two intersect, the minimal
  horizontal overlap 5 is smaller than the minimal vertical overlap 20, the ball entered
  from the left, and the brick is destroyed; the horizontal velocity is assigned
  \<open>- ballVelocity\<close>, which it already was, so it is not negated.
\<close>

theorem testCollision_brick_not_flipped:
  "isIntersecting (rect_edges (mk_Brick 100 50)) (ball_edges (mk_Ball 65 50)) \<and>
   minOverlapX (mk_Brick 100 50) (mk_Ball 65 50) = 5 \<and>
   minOverlapY (mk_Brick 100 50) (mk_Ball 65 50) = 20 \<and>
   minOverlapX (mk_Brick 100 50) (mk_Ball 65 50) < minOverlapY (mk_Brick 100 50) (mk_Ball 65 50) \<and>
   destroyed (fst (testCollision_brick (mk_Brick 100 50) (mk_Ball 65 50))) \<and>
   snd (testCollision_brick (mk_Brick 100 50) (mk_Ball 65 50)) = mk_Ball 65 50 \<and>
   vec_x (ball_velocity (snd (testCollision_brick (mk_Brick 100 50) (mk_Ball 65 50)))) \<noteq>
     - vec_x (ball_velocity (mk_Ball 65 50))"
proof -
  have i: "isIntersecting (rect_edges (mk_Brick 100 50)) (ball_edges (mk_Ball 65 50))"
    by (simp add: isIntersecting_def rect_edges_def ball_edges_def brick_100_50 ball_edges_eval
        fl32_exact)
  have m: "minOverlapX (mk_Brick 100 50) (mk_Ball 65 50) = 5"
    "minOverlapY (mk_Brick 100 50) (mk_Ball 65 50) = 20"
    "ballFromLeft (mk_Brick 100 50) (mk_Ball 65 50)"
    by (simp_all add: brick_locals brick_100_50 ball_edges_eval float_ops fl32_exact)
  have r: "testCollision_brick (mk_Brick 100 50) (mk_Ball 65 50) =
      ((mk_Brick 100 50)\<lparr>destroyed := True\<rparr>, mk_Ball 65 50)"
    using i m by (simp add: testCollision_brick_def) (simp add: mk_Ball_def)
  have "vec_x (ball_velocity (mk_Ball 65 50)) \<noteq> - vec_x (ball_velocity (mk_Ball 65 50))"
    using ballVelocity_pos by (simp add: mk_Ball_def)
  then show ?thesis using i m r by simp
qed

text \<open>
  Claim C4, amended. When brick and ball do not intersect, \<^verbatim>\<open>testCollision(Brick&, Ball&)\<close>
  changes neither. When they intersect, the brick is marked destroyed and the ball is
  not moved. The four overlaps are ball-right minus brick-left, brick-right minus
  ball-left, ball-bottom minus brick-top and brick-bottom minus ball-top;
  \<open>minOverlapX\<close> and \<open>minOverlapY\<close> are the smaller of the two overlaps of their axis. The
  velocity component of the axis with the strictly smaller minimal overlap is assigned
  \<open>ballVelocity\<close> with the sign of the entry side: negative when the left overlap (for
  the other axis, the top overlap) is the strictly smaller one of its axis, positive
  otherwise. That negates the component exactly when it had the opposite value before,
  and leaves it as it was when it already had the assigned value. The other component
  keeps its value.
\<close>

theorem testCollision_brick_spec:
  "overlapLeft mBrick mBall = fsub (ball_right mBall) (rect_left mBrick) \<and>
   overlapRight mBrick mBall = fsub (rect_right mBrick) (ball_left mBall) \<and>
   overlapTop mBrick mBall = fsub (ball_bottom mBall) (rect_top mBrick) \<and>
   overlapBottom mBrick mBall = fsub (rect_bottom mBrick) (ball_top mBall) \<and>
   minOverlapX mBrick mBall = min (overlapLeft mBrick mBall) (overlapRight mBrick mBall) \<and>
   minOverlapY mBrick mBall = min (overlapTop mBrick mBall) (overlapBottom mBrick mBall) \<and>
   (\<not> isIntersecting (rect_edges mBrick) (ball_edges mBall) \<longrightarrow>
      testCollision_brick mBrick mBall = (mBrick, mBall)) \<and>
   (isIntersecting (rect_edges mBrick) (ball_edges mBall) \<longrightarrow>
      fst (testCollision_brick mBrick mBall) = mBrick\<lparr>destroyed := True\<rparr> \<and>
      ball_shape (snd (testCollision_brick mBrick mBall)) = ball_shape mBall \<and>
      (minOverlapX mBrick mBall < minOverlapY mBrick mBall \<longrightarrow>
         vec_x (ball_velocity (snd (testCollision_brick mBrick mBall))) =
           (if overlapLeft mBrick mBall < overlapRight mBrick mBall
            then - ballVelocity else ballVelocity) \<and>
         (vec_x (ball_velocity (snd (testCollision_brick mBrick mBall))) =
            - vec_x (ball_velocity mBall) \<longleftrightarrow>
          vec_x (ball_velocity mBall) =
            (if overlapLeft mBrick mBall < overlapRight mBrick mBall
             then ballVelocity else - ballVelocity)) \<and>
         vec_y (ball_velocity (snd (testCollision_brick mBrick mBall))) =
           vec_y (ball_velocity mBall)) \<and>
      (minOverlapY mBrick mBall < minOverlapX mBrick mBall \<longrightarrow>
         vec_y (ball_velocity (snd (testCollision_brick mBrick mBall))) =
           (if overlapTop mBrick mBall < overlapBottom mBrick mBall
            then - ballVelocity else ballVelocity) \<and>
         (vec_y (ball_velocity (snd (testCollision_brick mBrick mBall))) =
            - vec_y (ball_velocity mBall) \<longleftrightarrow>
          vec_y (ball_velocity mBall) =
            (if overlapTop mBrick mBall < overlapBottom mBrick mBall
             then ballVelocity else - ballVelocity)) \<and>
         vec_x (ball_velocity (snd (testCollision_brick mBrick mBall))) =
           vec_x (ball_velocity mBall)))"
proof -
  have o: "overlapLeft mBrick mBall = fsub (ball_right mBall) (rect_left mBrick)"
    "overlapRight mBrick mBall = fsub (rect_right mBrick) (ball_left mBall)"
    "overlapTop mBrick mBall = fsub (ball_bottom mBall) (rect_top mBrick)"
    "overlapBottom mBrick mBall = fsub (rect_bottom mBrick) (ball_top mBall)"
    by (simp_all add: overlapLeft_def overlapRight_def overlapTop_def overlapBottom_def)
  have t: "minOverlapX mBrick mBall = min (overlapLeft mBrick mBall) (overlapRight mBrick mBall)"
    "minOverlapY mBrick mBall = min (overlapTop mBrick mBall) (overlapBottom mBrick mBall)"
    by (simp_all add: minOverlapX_def minOverlapY_def ballFromLeft_def ballFromTop_def min_def)
  have r: "(\<not> isIntersecting (rect_edges mBrick) (ball_edges mBall) \<longrightarrow>
      testCollision_brick mBrick mBall = (mBrick, mBall)) \<and>
   (isIntersecting (rect_edges mBrick) (ball_edges mBall) \<longrightarrow>
      fst (testCollision_brick mBrick mBall) = mBrick\<lparr>destroyed := True\<rparr> \<and>
      ball_shape (snd (testCollision_brick mBrick mBall)) = ball_shape mBall \<and>
      (minOverlapX mBrick mBall < minOverlapY mBrick mBall \<longrightarrow>
         vec_x (ball_velocity (snd (testCollision_brick mBrick mBall))) =
           (if overlapLeft mBrick mBall < overlapRight mBrick mBall
            then - ballVelocity else ballVelocity) \<and>
         vec_y (ball_velocity (snd (testCollision_brick mBrick mBall))) =
           vec_y (ball_velocity mBall)) \<and>
      (minOverlapY mBrick mBall < minOverlapX mBrick mBall \<longrightarrow>
         vec_y (ball_velocity (snd (testCollision_brick mBrick mBall))) =
           (if overlapTop mBrick mBall < overlapBottom mBrick mBall
            then - ballVelocity else ballVelocity) \<and>
         vec_x (ball_velocity (snd (testCollision_brick mBrick mBall))) =
           vec_x (ball_velocity mBall)))"
    by (simp add: testCollision_brick_def ballFromLeft_def ballFromTop_def)
  have n: "(s = - v) = (v = - s)" for s v :: real by auto
  show ?thesis
    using o t r by (auto simp: n)
qed

theorem testCollision_brick_spec_witness:
  "isIntersecting (rect_edges (mk_Brick 100 50)) (ball_edges (mk_Ball 135 50)) \<and>
   minOverlapX (mk_Brick 100 50) (mk_Ball 135 50) = 5 \<and>
   minOverlapY (mk_Brick 100 50) (mk_Ball 135 50) = 20 \<and>
   ball_velocity (mk_Ball 135 50) = \<lparr>vec_x = - ballVelocity, vec_y = - ballVelocity\<rparr> \<and>
   ball_velocity (snd (testCollision_brick (mk_Brick 100 50) (mk_Ball 135 50))) =
     \<lparr>vec_x = ballVelocity, vec_y = - ballVelocity\<rparr> \<and>
   isIntersecting (rect_edges (mk_Brick 100 50)) (ball_edges (mk_Ball 100 65)) \<and>
   minOverlapX (mk_Brick 100 50) (mk_Ball 100 65) = 40 \<and>
   minOverlapY (mk_Brick 100 50) (mk_Ball 100 65) = 5 \<and>
   ball_velocity (snd (testCollision_brick (mk_Brick 100 50) (mk_Ball 100 65))) =
     \<lparr>vec_x = - ballVelocity, vec_y = ballVelocity\<rparr> \<and>
   destroyed (fst (testCollision_brick (mk_Brick 100 50) (mk_Ball 100 65))) \<and>
   \<not> isIntersecting (rect_edges (mk_Brick 100 50)) (ball_edges (mk_Ball 300 300)) \<and>
   testCollision_brick (mk_Brick 100 50) (mk_Ball 300 300) = (mk_Brick 100 50, mk_Ball 300 300)"
proof -
  have i: "isIntersecting (rect_edges (mk_Brick 100 50)) (ball_edges (mk_Ball 135 50))"
    "isIntersecting (rect_edges (mk_Brick 100 50)) (ball_edges (mk_Ball 100 65))"
    "\<not> isIntersecting (rect_edges (mk_Brick 100 50)) (ball_edges (mk_Ball 300 300))"
    by (simp_all add: isIntersecting_def rect_edges_def ball_edges_def brick_100_50
        ball_edges_eval fl32_exact)
  have m: "minOverlapX (mk_Brick 100 50) (mk_Ball 135 50) = 5"
    "minOverlapY (mk_Brick 100 50) (mk_Ball 135 50) = 20"
    "\<not> overlapLeft (mk_Brick 100 50) (mk_Ball 135 50) < overlapRight (mk_Brick 100 50) (mk_Ball 135 50)"
    "minOverlapX (mk_Brick 100 50) (mk_Ball 100 65) = 40"
    "minOverlapY (mk_Brick 100 50) (mk_Ball 100 65) = 5"
    "\<not> overlapTop (mk_Brick 100 50) (mk_Ball 100 65) < overlapBottom (mk_Brick 100 50) (mk_Ball 100 65)"
    by (simp_all add: brick_locals brick_100_50 ball_edges_eval float_ops fl32_exact)
  have v: "ball_velocity (mk_Ball mX mY) = \<lparr>vec_x = - ballVelocity, vec_y = - ballVelocity\<rparr>"
    for mX mY
    by (simp add: mk_Ball_def)
  have a: "ball_velocity (snd (testCollision_brick (mk_Brick 100 50) (mk_Ball 135 50))) =
     \<lparr>vec_x = ballVelocity, vec_y = - ballVelocity\<rparr>"
    using testCollision_brick_spec [of "mk_Brick 100 50" "mk_Ball 135 50"] i m v
    by (simp add: Vector2f.equality)
  have b: "ball_velocity (snd (testCollision_brick (mk_Brick 100 50) (mk_Ball 100 65))) =
     \<lparr>vec_x = - ballVelocity, vec_y = ballVelocity\<rparr> \<and>
     destroyed (fst (testCollision_brick (mk_Brick 100 50) (mk_Ball 100 65)))"
    using testCollision_brick_spec [of "mk_Brick 100 50" "mk_Ball 100 65"] i m v
    by (simp add: Vector2f.equality)
  have c: "testCollision_brick (mk_Brick 100 50) (mk_Ball 300 300) =
      (mk_Brick 100 50, mk_Ball 300 300)"
    using testCollision_brick_spec [of "mk_Brick 100 50" "mk_Ball 300 300"] i by simp
  show ?thesis using i m a b c v by simp
qed

text \<open>
  Claim C10. When brick and ball intersect and the minimal horizontal overlap equals the
  minimal vertical overlap, the vertical velocity component is the one that is set, to
  the constant signed by the entry side, and the horizontal component keeps its value.
\<close>

theorem testCollision_brick_tie:
  "isIntersecting (rect_edges mBrick) (ball_edges mBall) \<and>
   minOverlapX mBrick mBall = minOverlapY mBrick mBall \<longrightarrow>
     vec_y (ball_velocity (snd (testCollision_brick mBrick mBall))) =
       (if overlapTop mBrick mBall < overlapBottom mBrick mBall
        then - ballVelocity else ballVelocity) \<and>
     vec_x (ball_velocity (snd (testCollision_brick mBrick mBall))) =
       vec_x (ball_velocity mBall)"
  by (simp add: testCollision_brick_def ballFromTop_def)

theorem testCollision_brick_tie_witness:
  "isIntersecting (rect_edges (mk_Brick 100 50)) (ball_edges (mk_Ball 65 65)) \<and>
   minOverlapX (mk_Brick 100 50) (mk_Ball 65 65) = 5 \<and>
   minOverlapY (mk_Brick 100 50) (mk_Ball 65 65) = 5 \<and>
   ball_velocity (mk_Ball 65 65) = \<lparr>vec_x = - ballVelocity, vec_y = - ballVelocity\<rparr> \<and>
   ball_velocity (snd (testCollision_brick (mk_Brick 100 50) (mk_Ball 65 65))) =
     \<lparr>vec_x = - ballVelocity, vec_y = ballVelocity\<rparr>"
proof -
  have i: "isIntersecting (rect_edges (mk_Brick 100 50)) (ball_edges (mk_Ball 65 65))"
    by (simp add: isIntersecting_def rect_edges_def ball_edges_def brick_100_50 ball_edges_eval
        fl32_exact)
  have m: "minOverlapX (mk_Brick 100 50) (mk_Ball 65 65) = 5"
    "minOverlapY (mk_Brick 100 50) (mk_Ball 65 65) = 5"
    "\<not> overlapTop (mk_Brick 100 50) (mk_Ball 65 65) < overlapBottom (mk_Brick 100 50) (mk_Ball 65 65)"
    by (simp_all add: brick_locals brick_100_50 ball_edges_eval float_ops fl32_exact)
  have v: "ball_velocity (mk_Ball 65 65) = \<lparr>vec_x = - ballVelocity, vec_y = - ballVelocity\<rparr>"
    by (simp add: mk_Ball_def)
  have "ball_velocity (snd (testCollision_brick (mk_Brick 100 50) (mk_Ball 65 65))) =
     \<lparr>vec_x = - ballVelocity, vec_y = ballVelocity\<rparr>"
    using testCollision_brick_tie [of "mk_Brick 100 50" "mk_Ball 65 65"] i m v
    by (simp add: Vector2f.equality)
  then show ?thesis using i m v by simp
qed

subsection \<open>The speed of the ball\<close>

lemma speed_ok_mk_Ball: "speed_ok (mk_Ball mX mY)"
  using ballVelocity_pos by (simp add: speed_ok_def mk_Ball_def)

lemma ball_velocity_moved: "ball_velocity (ball_moved mFT b) = ball_velocity b"
  by (simp add: ball_moved_def ball_setPosition_def)

lemma Ball_update_velocity:
  "vec_x (ball_velocity (Ball_update mFT b)) = vec_x (ball_velocity b) \<or>
   vec_x (ball_velocity (Ball_update mFT b)) = - vec_x (ball_velocity b)"
  "vec_y (ball_velocity (Ball_update mFT b)) = vec_y (ball_velocity b) \<or>
   vec_y (ball_velocity (Ball_update mFT b)) = - vec_y (ball_velocity b)"
  by (simp_all add: Ball_update_def Let_def ball_velocity_moved)

lemma sign_only_Ball_update: "sign_only b (Ball_update mFT b)"
  using Ball_update_velocity[of mFT b] by (simp add: sign_only_def)

lemma sign_only_speed_ok: "sign_only b b' \<Longrightarrow> speed_ok b \<Longrightarrow> speed_ok b'"
  by (auto simp: sign_only_def speed_ok_def)

lemma speed_ok_components:
  "speed_ok b \<Longrightarrow> vec_x (ball_velocity b) = ballVelocity \<or> vec_x (ball_velocity b) = - ballVelocity"
  "speed_ok b \<Longrightarrow> vec_y (ball_velocity b) = ballVelocity \<or> vec_y (ball_velocity b) = - ballVelocity"
  by (auto simp: speed_ok_def abs_if split: if_splits)

lemma sign_only_testCollision_paddle:
  "speed_ok b \<Longrightarrow> sign_only b (testCollision_paddle mPaddle b)"
  using speed_ok_components[of b]
  by (auto simp: sign_only_def testCollision_paddle_def Let_def)

lemma sign_only_testCollision_brick:
  "speed_ok b \<Longrightarrow> sign_only b (snd (testCollision_brick mBrick b))"
  using speed_ok_components[of b]
  by (auto simp: sign_only_def testCollision_brick_def)

lemma sign_only_resetBall:
  "speed_ok b \<Longrightarrow> sign_only b (resetBall b)"
  using speed_ok_components[of b]
  by (auto simp: sign_only_def resetBall_def Let_def ball_setPosition_def)

lemma reachable_ball_speed_ok: "reachable_ball b \<Longrightarrow> speed_ok b"
proof (induction rule: reachable_ball.induct)
  case (created mX mY)
  show ?case by (rule speed_ok_mk_Ball)
next
  case (updated b mFT)
  then show ?case using sign_only_Ball_update sign_only_speed_ok by blast
next
  case (paddle_tested b mPaddle)
  then show ?case using sign_only_testCollision_paddle sign_only_speed_ok by blast
next
  case (brick_tested b mBrick)
  then show ?case using sign_only_testCollision_brick sign_only_speed_ok by blast
next
  case (reset b)
  then show ?case using sign_only_resetBall sign_only_speed_ok by blast
qed

text \<open>
  Claim C1. For every ball the program can reach, and for each of \<^verbatim>\<open>Ball::update\<close>,
  the paddle test, the brick test and \<^verbatim>\<open>resetBall\<close>, both velocity components have
  the magnitude \<open>ballVelocity\<close> before and after the operation, and the operation keeps
  or negates each component.
\<close>

theorem ball_speed_invariant:
  assumes "reachable_ball b"
  shows "speed_ok b \<and>
    speed_ok (Ball_update mFT b) \<and> sign_only b (Ball_update mFT b) \<and>
    speed_ok (testCollision_paddle mPaddle b) \<and> sign_only b (testCollision_paddle mPaddle b) \<and>
    speed_ok (snd (testCollision_brick mBrick b)) \<and>
    sign_only b (snd (testCollision_brick mBrick b)) \<and>
    speed_ok (resetBall b) \<and> sign_only b (resetBall b)"
proof -
  have ok: "speed_ok b" using assms by (rule reachable_ball_speed_ok)
  show ?thesis
    using ok sign_only_Ball_update[of b mFT] sign_only_testCollision_paddle[OF ok, of mPaddle]
      sign_only_testCollision_brick[OF ok, of mBrick] sign_only_resetBall[OF ok]
      sign_only_speed_ok
    by blast
qed

theorem ball_speed_invariant_witness:
  "reachable_ball (resetBall (mk_Ball 400 300)) \<and>
   speed_ok (Ball_update ftStep (resetBall (mk_Ball 400 300))) \<and>
   speed_ok (testCollision_paddle (mk_Paddle 400 550) (resetBall (mk_Ball 400 300))) \<and>
   speed_ok (snd (testCollision_brick (mk_Brick 100 50) (resetBall (mk_Ball 400 300))))"
proof -
  have r: "reachable_ball (resetBall (mk_Ball 400 300))"
    by (rule reachable_ball.reset) (rule reachable_ball.created)
  show ?thesis
    using r ball_speed_invariant [OF r, of ftStep "mk_Paddle 400 550" "mk_Brick 100 50"]
    by simp
qed

section \<open>The ball at the bottom of the window\<close>

text \<open>
  With the constructor's radius of 10, a bottom edge beyond 600 after rounding means a
  centre beyond 590, and then the top edge is not above 0.
\<close>

lemma fl32_gt_int:
  assumes "of_int n < fl32 x" "0 \<le> n" "n < 2 ^ 24"
  shows "of_int n < x"
  using fl32_le_int[of x n] assms by (meson not_le)

lemma ball_shape_Ball_update: "ball_shape (Ball_update mFT b) = ball_shape (ball_moved mFT b)"
  by (simp add: Ball_update_def Let_def)

lemma Ball_update_velocity_y:
  "vec_y (ball_velocity (Ball_update mFT b)) =
     (if ball_top (ball_moved mFT b) < 0 then - vec_y (ball_velocity b)
      else vec_y (ball_velocity b))"
  by (simp add: Ball_update_def Let_def ball_velocity_moved float_of_int_0 ball_top_def ball_y_def)

lemma below_not_above:
  assumes "circle_radius (ball_shape b) = ballRadius"
    and "float_of_int windowHeight < ball_bottom b"
  shows "\<not> ball_top b < 0"
proof -
  have "of_int 600 < fl32 (ball_y b + 10)"
    using assms by (simp add: ball_bottom_def fadd_def ballRadius_def float_of_int_windowHeight)
  then have "of_int 600 < ball_y b + 10"
    by (rule fl32_gt_int) simp_all
  then have "0 \<le> ball_y b - 10" by simp
  then have "0 \<le> fl32 (ball_y b - 10)" by (rule fl32_nonneg)
  then show ?thesis
    using assms by (simp add: ball_top_def fsub_def ballRadius_def)
qed

lemma radius_moved: "circle_radius (ball_shape (ball_moved mFT b)) = circle_radius (ball_shape b)"
  by (simp add: ball_moved_def ball_setPosition_def)

text \<open>
  Claim C7. When, after the move, the ball's bottom edge is below the window
  (\<^verbatim>\<open>bottom() > windowHeight\<close>), \<^verbatim>\<open>Ball::update\<close> does not bounce: the vertical velocity
  is what it was, and the ball is where the move put it, at \<open>y + velocity.y * mFT\<close>. In
  every case the vertical velocity is negated exactly when the top edge is above 0.
  The radius is the one the constructor sets.
\<close>

theorem Ball_update_bottom_no_bounce:
  assumes "circle_radius (ball_shape b) = ballRadius"
  shows "(float_of_int windowHeight < ball_bottom (ball_moved mFT b) \<longrightarrow>
            vec_y (ball_velocity (Ball_update mFT b)) = vec_y (ball_velocity b) \<and>
            ball_shape (Ball_update mFT b) = ball_shape (ball_moved mFT b) \<and>
            ball_y (ball_moved mFT b) = fadd (ball_y b) (fmul (vec_y (ball_velocity b)) mFT)) \<and>
         vec_y (ball_velocity (Ball_update mFT b)) =
           (if ball_top (ball_moved mFT b) < 0 then - vec_y (ball_velocity b)
            else vec_y (ball_velocity b))"
proof -
  have "\<not> ball_top (ball_moved mFT b) < 0"
    if "float_of_int windowHeight < ball_bottom (ball_moved mFT b)"
    using below_not_above[of "ball_moved mFT b"] that assms by (simp add: radius_moved)
  moreover have "ball_y (ball_moved mFT b) = fadd (ball_y b) (fmul (vec_y (ball_velocity b)) mFT)"
    by (simp add: ball_moved_def ball_setPosition_def ball_y_def vec_move_def vec_scale_def)
  ultimately show ?thesis
    by (simp add: Ball_update_velocity_y ball_shape_Ball_update)
qed

lemma falling_bottom: "ball_bottom (ball_moved ftStep falling_ball) = 4918477 / 8192"
  by (simp add: falling_ball_def ball_moved_def ball_setPosition_def mk_Ball_def vec_move_def
      vec_scale_def ball_bottom_def ball_y_def ballRadius_def ftStep_def ballVelocity_value
      float_ops fl32_def expo_def rne_def compute_floorlog)

theorem Ball_update_bottom_no_bounce_witness:
  "circle_radius (ball_shape falling_ball) = ballRadius \<and>
   float_of_int windowHeight < ball_bottom (ball_moved ftStep falling_ball) \<and>
   vec_y (ball_velocity (Ball_update ftStep falling_ball)) = ballVelocity \<and>
   ball_shape (Ball_update ftStep falling_ball) = ball_shape (ball_moved ftStep falling_ball)"
proof -
  have r: "circle_radius (ball_shape falling_ball) = ballRadius"
    by (simp add: falling_ball_def mk_Ball_def)
  have b: "float_of_int windowHeight < ball_bottom (ball_moved ftStep falling_ball)"
    by (simp add: falling_bottom float_of_int_windowHeight)
  have v: "vec_y (ball_velocity falling_ball) = ballVelocity"
    by (simp add: falling_ball_def)
  show ?thesis
    using r b v Ball_update_bottom_no_bounce [OF r, of ftStep] by simp
qed

section \<open>The paddle stays in the window\<close>

text \<open>
  The game's paddle starts at \<open>x = 400\<close> and moves by \<open>paddleVelocity * ftStep = 1\<close> in a
  step, so its centre stays at integers, which single precision represents exactly; and
  the velocity is set to \<open>- 1\<close> or \<open>1\<close> only while the edge is strictly inside.
\<close>

lemma paddle_inv_int:
  "paddle_inv p \<longleftrightarrow>
     (\<exists>n::int. rect_x p = of_int n \<and> 30 \<le> n \<and> n \<le> 770 \<and>
        (vec_x (velocity p) = 0 \<or> vec_x (velocity p) = - 1 \<and> 31 \<le> n \<or>
         vec_x (velocity p) = 1 \<and> n \<le> 769)) \<and>
     rect_y p = 550 \<and> vec_y (velocity p) = 0 \<and>
     rect_size (shape p) = \<lparr>vec_x = paddleWidth, vec_y = paddleHeight\<rparr>"
proof -
  have "of_int \<lfloor>rect_x p\<rfloor> = rect_x p \<and> 30 \<le> rect_x p \<and> rect_x p \<le> 770 \<and>
     (vec_x (velocity p) = 0 \<or> vec_x (velocity p) = - 1 \<and> 31 \<le> rect_x p \<or>
      vec_x (velocity p) = 1 \<and> rect_x p \<le> 769) \<longleftrightarrow>
     (\<exists>n::int. rect_x p = of_int n \<and> 30 \<le> n \<and> n \<le> 770 \<and>
        (vec_x (velocity p) = 0 \<or> vec_x (velocity p) = - 1 \<and> 31 \<le> n \<or>
         vec_x (velocity p) = 1 \<and> n \<le> 769))" (is "?l \<longleftrightarrow> ?r")
  proof
    assume l: ?l
    define n where "n = \<lfloor>rect_x p\<rfloor>"
    from l have "of_int \<lfloor>rect_x p\<rfloor> = rect_x p" by (rule conjunct1)
    then have x: "rect_x p = of_int n" unfolding n_def by (rule sym)
    from l have "30 \<le> rect_x p \<and> rect_x p \<le> 770 \<and>
     (vec_x (velocity p) = 0 \<or> vec_x (velocity p) = - 1 \<and> 31 \<le> rect_x p \<or>
      vec_x (velocity p) = 1 \<and> rect_x p \<le> 769)" by (rule conjunct2)
    then have "30 \<le> n \<and> n \<le> 770 \<and>
     (vec_x (velocity p) = 0 \<or> vec_x (velocity p) = - 1 \<and> 31 \<le> n \<or>
      vec_x (velocity p) = 1 \<and> n \<le> 769)" unfolding x by simp
    with x show ?r by blast
  next
    assume ?r
    then obtain n :: int where "rect_x p = of_int n" "30 \<le> n" "n \<le> 770"
      "vec_x (velocity p) = 0 \<or> vec_x (velocity p) = - 1 \<and> 31 \<le> n \<or>
         vec_x (velocity p) = 1 \<and> n \<le> 769"
      by blast
    then show ?l by simp
  qed
  then show ?thesis unfolding paddle_inv_def by blast
qed

lemma paddle_inv_init: "paddle_inv (paddle new_Game)"
proof -
  have "rect_x (paddle new_Game) = of_int 400"
    by (simp add: new_Game_def mk_Paddle_def rect_x_def windowWidth_def float_of_int_exact)
  moreover have "rect_y (paddle new_Game) = 550"
    by (simp add: new_Game_def mk_Paddle_def rect_y_def windowHeight_def float_of_int_exact)
  ultimately show ?thesis
    unfolding paddle_inv_int
    apply (intro conjI exI[of _ 400])
    by (simp_all add: new_Game_def mk_Paddle_def)
qed

lemma fl32_of_int_plus:
  "\<bar>n + m\<bar> < 2 ^ 24 \<Longrightarrow> fl32 (of_int n + of_int m) = of_int n + of_int m"
  using fl32_of_int[of "n + m"] by simp

lemma fl32_of_int_minus:
  "\<bar>n - m\<bar> < 2 ^ 24 \<Longrightarrow> fl32 (of_int n - of_int m) = of_int n - of_int m"
  using fl32_of_int[of "n - m"] by simp

lemma paddle_moved_eval:
  assumes "rect_x p = of_int n" "vec_x (velocity p) = of_int v" "\<bar>v\<bar> \<le> 1" "\<bar>n\<bar> \<le> 1000"
    "rect_y p = 550" "vec_y (velocity p) = 0"
  shows "rect_x (paddle_moved ftStep p) = of_int (n + v)"
    and "rect_y (paddle_moved ftStep p) = 550"
    and "velocity (paddle_moved ftStep p) = velocity p"
    and "rect_size (shape (paddle_moved ftStep p)) = rect_size (shape p)"
proof -
  have v: "fl32 (of_int v) = of_int v" using assms by (intro fl32_of_int) simp
  have "fl32 (of_int n + of_int v) = of_int n + of_int v"
    using assms by (intro fl32_of_int_plus) simp
  then show "rect_x (paddle_moved ftStep p) = of_int (n + v)"
    using assms v
    by (simp add: paddle_moved_def rect_x_def vec_move_def vec_scale_def ftStep_def float_ops)
  show "rect_y (paddle_moved ftStep p) = 550"
    using assms
    by (simp add: paddle_moved_def rect_y_def vec_move_def vec_scale_def ftStep_def float_ops
        fl32_exact)
qed (simp_all add: paddle_moved_def)

lemma rect_edges_int:
  assumes "rect_x p = of_int n" "\<bar>n\<bar> \<le> 1000"
    "rect_size (shape p) = \<lparr>vec_x = paddleWidth, vec_y = paddleHeight\<rparr>"
  shows "rect_left p = of_int (n - 30)" and "rect_right p = of_int (n + 30)"
proof -
  have h: "fdiv paddleWidth 2 = of_int 30"
    by (simp add: fdiv_def paddleWidth_def fl32_exact)
  show "rect_left p = of_int (n - 30)"
    using assms fl32_of_int_minus[of n 30]
    by (simp add: rect_left_def h fsub_def)
  show "rect_right p = of_int (n + 30)"
    using assms fl32_of_int_plus[of n 30]
    by (simp add: rect_right_def h fadd_def)
qed

lemma paddle_inv_step:
  assumes "paddle_inv p"
  shows "paddle_inv (Paddle_update ftStep ks p)"
proof -
  from assms obtain n :: int where n: "rect_x p = of_int n" "30 \<le> n" "n \<le> 770"
    and vx: "vec_x (velocity p) = 0 \<or> vec_x (velocity p) = - 1 \<and> 31 \<le> n \<or>
         vec_x (velocity p) = 1 \<and> n \<le> 769"
    and rest: "rect_y p = 550" "vec_y (velocity p) = 0"
      "rect_size (shape p) = \<lparr>vec_x = paddleWidth, vec_y = paddleHeight\<rparr>"
    unfolding paddle_inv_int by blast
  from vx obtain v :: int where v: "vec_x (velocity p) = of_int v" "\<bar>v\<bar> \<le> 1"
    "30 \<le> n + v" "n + v \<le> 770"
    using n by (elim disjE conjE; fastforce intro: that[of 0] that[of "-1"] that[of 1])
  define p1 where "p1 = paddle_moved ftStep p"
  have m: "rect_x p1 = of_int (n + v)" "rect_y p1 = 550" "velocity p1 = velocity p"
    "rect_size (shape p1) = \<lparr>vec_x = paddleWidth, vec_y = paddleHeight\<rparr>"
    unfolding p1_def using paddle_moved_eval[of p n v] n v rest by simp_all
  have e: "rect_left p1 = of_int (n + v - 30)" "rect_right p1 = of_int (n + v + 30)"
    using rect_edges_int[of p1 "n + v"] m n v by simp_all
  have u: "Paddle_update ftStep ks p =
     (if key_Left ks \<and> 0 < rect_left p1
         then p1\<lparr>velocity := (velocity p1)\<lparr>vec_x := - 1\<rparr>\<rparr>
         else if key_Right ks \<and> rect_right p1 < 800
         then p1\<lparr>velocity := (velocity p1)\<lparr>vec_x := 1\<rparr>\<rparr>
         else p1\<lparr>velocity := (velocity p1)\<lparr>vec_x := 0\<rparr>\<rparr>)"
    by (simp add: Paddle_update_def p1_def Let_def float_of_int_0 float_of_int_windowWidth
        paddleVelocity_def)
  have l: "0 < rect_left p1 \<longleftrightarrow> 31 \<le> n + v"
    unfolding e by (simp only: of_int_0_less_iff) auto
  have r: "rect_right p1 < 800 \<longleftrightarrow> n + v \<le> 769"
  proof -
    have "rect_right p1 < 800 \<longleftrightarrow> (of_int (n + v + 30) :: real) < of_int 800"
      unfolding e by simp
    also have "\<dots> \<longleftrightarrow> n + v + 30 < 800" by (simp only: of_int_less_iff)
    finally show ?thesis by auto
  qed
  show ?thesis
    unfolding paddle_inv_int u
    using m v rest l r
    by (auto simp: rect_x_def rect_y_def intro!: exI[of _ "n + v"])
qed

lemma paddle_inv_foldl:
  "paddle_inv p \<Longrightarrow> paddle_inv (foldl (\<lambda>p ks. Paddle_update ftStep ks p) p kss)"
  by (induction kss arbitrary: p) (simp_all add: paddle_inv_step)

lemma paddle_inv_bounds:
  assumes "paddle_inv p"
  shows "paddleWidth / 2 \<le> rect_x p" "rect_x p \<le> of_int windowWidth - paddleWidth / 2"
    "0 \<le> rect_left p" "rect_right p \<le> of_int windowWidth" "rect_y p = 550"
proof -
  from assms obtain n :: int where n: "rect_x p = of_int n" "30 \<le> n" "n \<le> 770"
    and rest: "rect_y p = 550" 
      "rect_size (shape p) = \<lparr>vec_x = paddleWidth, vec_y = paddleHeight\<rparr>"
    unfolding paddle_inv_int by blast
  have e: "rect_left p = of_int (n - 30)" "rect_right p = of_int (n + 30)"
    using rect_edges_int[of p n] n rest by simp_all
  show "paddleWidth / 2 \<le> rect_x p" "rect_x p \<le> of_int windowWidth - paddleWidth / 2"
    using n by (simp_all add: paddleWidth_def windowWidth_def)
  show "0 \<le> rect_left p" "rect_right p \<le> of_int windowWidth"
    unfolding e using n by (simp_all add: windowWidth_def)
  show "rect_y p = 550" by (rule rest)
qed

text \<open>
  Claim C6. Whatever the keyboard states during any number of \<^verbatim>\<open>paddle.update(ftStep)\<close>
  calls on the game's paddle, its centre stays within
  \<open>[paddleWidth / 2, windowWidth - paddleWidth / 2]\<close>, its left edge is never below 0
  and its right edge never beyond \<open>windowWidth\<close>, and its \<open>y\<close> coordinate is the one
  it was constructed with.
\<close>

theorem paddle_stays_in_window:
  "paddleWidth / 2 \<le> rect_x (paddle_after kss) \<and>
   rect_x (paddle_after kss) \<le> of_int windowWidth - paddleWidth / 2 \<and>
   0 \<le> rect_left (paddle_after kss) \<and>
   rect_right (paddle_after kss) \<le> of_int windowWidth \<and>
   rect_y (paddle_after kss) = rect_y (paddle new_Game)"
proof -
  have "paddle_inv (paddle_after kss)"
    unfolding paddle_after_def by (rule paddle_inv_foldl) (rule paddle_inv_init)
  from paddle_inv_bounds[OF this] paddle_inv_bounds(5)[OF paddle_inv_init]
  show ?thesis by simp
qed

section \<open>Removal of destroyed bricks\<close>

text \<open>
  The tests change the ball's velocity, not its shape, so every brick of a step is
  tested against the ball where \<^verbatim>\<open>Ball::update\<close> put it; what the step keeps are the
  bricks neither destroyed before nor hit now.
\<close>

lemma ball_edges_shape: "ball_shape b = ball_shape b' \<Longrightarrow> ball_edges b = ball_edges b'"
  by (simp add: ball_geometry)

lemma ball_shape_testCollision_paddle: "ball_shape (testCollision_paddle mPaddle b) = ball_shape b"
  by (simp add: testCollision_paddle_def Let_def)

lemma ball_shape_testCollision_brick: "ball_shape (snd (testCollision_brick mBrick b)) = ball_shape b"
  by (simp add: testCollision_brick_def)

lemma fst_testCollision_brick:
  "fst (testCollision_brick mBrick b) =
     (if isIntersecting (rect_edges mBrick) (ball_edges b) then mBrick\<lparr>destroyed := True\<rparr>
      else mBrick)"
  by (simp add: testCollision_brick_def)

lemma testBricks_shape: "ball_shape (snd (testBricks bs b)) = ball_shape b"
proof (induction bs arbitrary: b)
  case Nil
  show ?case by simp
next
  case (Cons k bs)
  have "ball_shape (snd (testBricks bs (snd (testCollision_brick k b)))) = ball_shape b"
    using Cons.IH[of "snd (testCollision_brick k b)"] ball_shape_testCollision_brick by simp
  then show ?case by (simp add: split_beta)
qed

lemma testBricks_bricks:
  "fst (testBricks bs b) =
     map (\<lambda>k. if isIntersecting (rect_edges k) (ball_edges b) then k\<lparr>destroyed := True\<rparr> else k) bs"
proof (induction bs arbitrary: b)
  case Nil
  show ?case by simp
next
  case (Cons k bs)
  have "ball_edges (snd (testCollision_brick k b)) = ball_edges b"
    by (rule ball_edges_shape) (rule ball_shape_testCollision_brick)
  then show ?case
    using Cons.IH[of "snd (testCollision_brick k b)"]
    by (simp add: split_beta fst_testCollision_brick)
qed

lemma filter_marked:
  "filter (\<lambda>k. \<not> destroyed k) (map (\<lambda>k. if P k then k\<lparr>destroyed := True\<rparr> else k) bs) =
   filter (\<lambda>k. \<not> destroyed k \<and> \<not> P k) bs"
  by (induction bs) auto

lemma ball_simStep:
  "ball_shape (ball (simStep ks g)) = ball_shape (Ball_update ftStep (ball g))"
  by (simp add: simStep_def Let_def split_beta testBricks_shape ball_shape_testCollision_paddle)

lemma bricks_simStep:
  "bricks (simStep ks g) =
     filter (\<lambda>k. \<not> destroyed k \<and>
                  \<not> isIntersecting (rect_edges k) (ball_edges (Ball_update ftStep (ball g))))
       (bricks g)"
proof -
  have "ball_edges (testCollision_paddle (Paddle_update ftStep ks (paddle g))
          (Ball_update ftStep (ball g))) = ball_edges (Ball_update ftStep (ball g))"
    by (rule ball_edges_shape) (rule ball_shape_testCollision_paddle)
  then show ?thesis
    by (simp add: simStep_def Let_def split_beta testBricks_bricks filter_marked)
qed

lemma paddle_simStep: "paddle (simStep ks g) = Paddle_update ftStep ks (paddle g)"
  by (simp add: simStep_def Let_def split_beta)

text \<open>
  Claim C2. After a simulation step every brick of the collection is undestroyed, was in
  the collection before, and does not intersect the ball. A brick that intersected the
  ball in the step (the ball as \<^verbatim>\<open>Ball::update\<close> left it, which the tests do not move)
  is absent from the collection the next step tests, and from the one after.
\<close>

theorem destroyed_bricks_removed:
  "(\<forall>k \<in> set (bricks (simStep ks g)). \<not> destroyed k \<and> k \<in> set (bricks g) \<and>
       \<not> isIntersecting (rect_edges k) (ball_edges (ball (simStep ks g)))) \<and>
   (\<forall>k \<in> set (bricks g).
       isIntersecting (rect_edges k) (ball_edges (Ball_update ftStep (ball g))) \<longrightarrow>
       k \<notin> set (bricks (simStep ks g)) \<and>
       k \<notin> set (bricks (simStep ks' (simStep ks g))))"
proof -
  have e: "ball_edges (ball (simStep ks g)) = ball_edges (Ball_update ftStep (ball g))"
    by (rule ball_edges_shape) (rule ball_simStep)
  have s: "set (bricks (simStep ks' (simStep ks g))) \<subseteq> set (bricks (simStep ks g))"
    by (subst bricks_simStep[of ks' "simStep ks g"]) auto
  show ?thesis
    using s by (auto simp: e bricks_simStep[of ks g])
qed

lemma brick_at_0_0: "brick_at 0 0 = mk_Brick 85 46"
  by (simp add: brick_at_def float_of_int_exact blockWidth_def blockHeight_def float_ops fl32_exact)

lemma brick_85_46:
  "rect_left (mk_Brick 85 46) = 55" "rect_right (mk_Brick 85 46) = 115"
  "rect_top (mk_Brick 85 46) = 36" "rect_bottom (mk_Brick 85 46) = 56"
  by (simp_all add: rect_geometry mk_Brick_def float_ops fl32_exact blockWidth_def blockHeight_def)

lemma hit_ball_shape:
  "circle_position (ball_shape (Ball_update ftStep (mk_Ball 85 66))) =
     \<lparr>vec_x = 11088691 / 131072, vec_y = 8598323 / 131072\<rparr>"
  by (simp add: ball_shape_Ball_update ball_moved_def ball_setPosition_def mk_Ball_def vec_move_def
      vec_scale_def ftStep_def ballVelocity_value
      float_ops fl32_def expo_def rne_def compute_floorlog)

lemma hit_ball_edges:
  "ball_edges (Ball_update ftStep (mk_Ball 85 66)) =
     \<lparr>edge_left = 9777971 / 131072, edge_right = 12399411 / 131072,
      edge_top = 7287603 / 131072, edge_bottom = 9909043 / 131072\<rparr>"
  by (simp add: ball_geometry hit_ball_shape ball_shape_Ball_update[symmetric])
    (simp add: ball_shape_Ball_update ball_moved_def ball_setPosition_def mk_Ball_def ballRadius_def
      float_ops fl32_def expo_def rne_def compute_floorlog)

theorem destroyed_bricks_removed_witness:
  "brick_at 0 0 \<in> set (bricks hit_game) \<and>
   isIntersecting (rect_edges (brick_at 0 0)) (ball_edges (Ball_update ftStep (ball hit_game))) \<and>
   brick_at 0 0 \<notin> set (bricks (simStep no_keys hit_game)) \<and>
   brick_at 0 0 \<notin> set (bricks (simStep no_keys (simStep no_keys hit_game)))"
proof -
  have m: "brick_at 0 0 \<in> set (bricks hit_game)"
    by (simp add: hit_game_def new_Game_def countBlocksX_def countBlocksY_def)
      (rule bexI[of _ 0], simp_all)
  have i: "isIntersecting (rect_edges (brick_at 0 0))
             (ball_edges (Ball_update ftStep (ball hit_game)))"
    by (simp add: hit_game_def isIntersecting_def hit_ball_edges brick_at_0_0 rect_edges_def
        brick_85_46)
  show ?thesis
    using m i destroyed_bricks_removed [of no_keys hit_game no_keys] by blast
qed

section \<open>Leaving the game loop\<close>

text \<open>
  Only the Escape key changes \<^verbatim>\<open>running\<close>: neither \<^verbatim>\<open>pollEvent\<close> nor the update phase
  does.
\<close>

lemma running_pollEvents: "running (pollEvents evs g) = running g"
  by (induction evs arbitrary: g) simp_all

lemma window_pollEvents_Closed: "\<not> window_open (pollEvents (Closed # evs) g)"
proof -
  have "\<not> window_open g \<Longrightarrow> \<not> window_open (pollEvents evs g)" for g
    by (induction evs arbitrary: g) simp_all
  then show ?thesis by simp
qed

lemma running_inputPhase:
  "running (inputPhase evs ks g) = (running g \<and> \<not> key_Escape ks)"
  by (simp add: inputPhase_def Let_def running_pollEvents)

lemma running_simStep: "running (simStep ks g) = running g"
  by (simp add: simStep_def Let_def split_beta)

lemma window_simStep: "window_open (simStep ks g) = window_open g"
  by (simp add: simStep_def Let_def split_beta)

lemma running_updateLoop:
  assumes "updateLoop kb g = Some y"
  shows "running (snd y) = running g"
proof (induction kb g y rule: updateLoop.raw_induct)
  case (1 loop kb g y)
  show ?case
  proof (cases "currentSlice g \<ge> ftSlice")
    case True
    with "1.hyps" have "loop (kbd_tail kb)
        ((simStep (kb 0) g)\<lparr>currentSlice := fsub (currentSlice g) ftSlice\<rparr>) = Some y"
      by simp
    from "1.IH"[OF this] show ?thesis by (simp add: running_simStep)
  next
    case False
    with "1.hyps" show ?thesis by auto
  qed
qed fact

lemma running_updatePhase:
  "updatePhase kb g = Some y \<Longrightarrow> running (snd y) = running g"
  unfolding updatePhase_def using running_updateLoop[of kb _ y] by fastforce

lemma running_iteration:
  "iteration inp g = Some g1 \<Longrightarrow> running g1 = (running g \<and> \<not> key_Escape (frame_keys inp))"
  by (auto simp: iteration_def running_inputPhase split: option.splits
      dest!: running_updatePhase)

lemma escape_stops_loop:
  assumes "running g" "key_Escape (frame_keys (env 0))" "iteration (env 0) g = Some g1"
  shows "runLoop env g = Some g1 \<and> \<not> running g1"
proof -
  have r: "\<not> running g1" using running_iteration[OF assms(3)] assms by simp
  then have "runLoop (\<lambda>i. env (Suc i)) g1 = Some g1"
    by (subst runLoop.simps) simp
  then show ?thesis
    using assms r by (subst runLoop.simps) simp
qed

lemma runLoop_close_env:
  assumes "runLoop env g = Some y" and "env = close_env" and "running g"
  shows False
  using assms(2,3)
proof (induction env g y rule: runLoop.raw_induct)
  case (1 loop env g y)
  have t: "(\<lambda>i. env (Suc i)) = close_env" "env 0 = close_frame"
    using "1.prems" by (simp_all add: close_env_def)
  have "Option.bind (iteration (env 0) g) (\<lambda>g1. loop (\<lambda>i. env (Suc i)) g1) = Some y"
    using "1.hyps" "1.prems"(2) by simp
  then obtain g1 where "iteration (env 0) g = Some g1" "loop (\<lambda>i. env (Suc i)) g1 = Some y"
    by (auto simp only: bind_eq_Some_conv)
  then have i: "iteration close_frame g = Some g1" and l: "loop close_env g1 = Some y"
    by (simp_all only: t)
  have r: "running g1"
    using running_iteration[OF i] "1.prems" by (simp add: close_frame_def no_keys_def)
  from "1.IH"[OF l _ r] show ?case by simp
qed fact

text \<open>
  Claim C8. The claim says that the loop stops after an iteration that sees the window
  closed or Escape held. For Escape it does (\<open>escape_stops_loop\<close>). For a closed window
  it does not: \<^verbatim>\<open>inputPhase\<close> closes the window and leaves \<^verbatim>\<open>running\<close> as it is. After
  an iteration that sees \<^verbatim>\<open>Event::Closed\<close> and no key, the window is closed and
  \<^verbatim>\<open>running\<close> is still true; and when every iteration is like that, \<^verbatim>\<open>run\<close> never
  returns.
\<close>

theorem window_close_does_not_stop:
  "run close_env new_Game = None \<and>
   map_option (\<lambda>g. (window_open g, running g)) (iteration close_frame (new_Game\<lparr>running := True\<rparr>))
     = Some (False, True)"
proof -
  have "run close_env new_Game = None"
  proof (cases "run close_env new_Game")
    case (Some y)
    then show ?thesis
      using runLoop_close_env[of close_env "new_Game\<lparr>running := True\<rparr>" y]
      by (simp add: run_def)
  qed simp
  moreover have "updatePhase idle_keyboard (inputPhase [Closed] no_keys (new_Game\<lparr>running := True\<rparr>))
     = Some (idle_keyboard, (new_Game\<lparr>running := True, window_open := False\<rparr>))"
    apply (simp add: updatePhase_def inputPhase_def no_keys_def new_Game_def fadd_def fl32_0)
    apply (subst updateLoop.simps)
    apply (simp add: ftSlice_def)
    done
  ultimately show ?thesis
    by (simp add: iteration_def close_frame_def new_Game_def)
qed

section \<open>The fixed-step scheduler\<close>

subsection \<open>What the loop of the update phase computes\<close>

text \<open>
  A simulation step neither reads nor writes the accumulator, and its effect on the
  entities depends on the entities alone. When \<open>n\<close> subtractions of \<open>ftSlice\<close> are exact
  and lead from the accumulator to below \<open>ftSlice\<close>, the loop makes \<open>n\<close> passes.
\<close>

lemma simStep_currentSlice_update:
  "simStep ks (g\<lparr>currentSlice := v\<rparr>) = (simStep ks g)\<lparr>currentSlice := v\<rparr>"
  by (simp add: simStep_def Let_def split_beta)

lemma currentSlice_simStep: "currentSlice (simStep ks g) = currentSlice g"
  by (simp add: simStep_def Let_def split_beta)

lemma currentSlice_simSteps: "currentSlice (simSteps n kb g) = currentSlice g"
  by (induction n arbitrary: kb g) (simp_all add: currentSlice_simStep)

lemma simSteps_currentSlice_update:
  "simSteps n kb (g\<lparr>currentSlice := v\<rparr>) = (simSteps n kb g)\<lparr>currentSlice := v\<rparr>"
  by (induction n arbitrary: kb g) (simp_all add: simStep_currentSlice_update)

lemma entities_simStep_cong:
  "entities g = entities g' \<Longrightarrow> entities (simStep ks g) = entities (simStep ks g')"
  by (simp add: entities_def simStep_def Let_def split_beta)

lemma entities_simSteps_cong:
  "entities g = entities g' \<Longrightarrow> entities (simSteps n kb g) = entities (simSteps n kb g')"
proof (induction n arbitrary: kb g g')
  case 0
  then show ?case by simp
next
  case (Suc n)
  show ?case
    using Suc.IH[OF entities_simStep_cong[OF Suc.prems, of "kb 0"]] by simp
qed

lemma kbd_drop_add: "kbd_drop m (kbd_drop n kb) = kbd_drop (n + m) kb"
  by (induction n arbitrary: kb) simp_all

lemma simSteps_add: "simSteps m (kbd_drop n kb) (simSteps n kb g) = simSteps (n + m) kb g"
  by (induction n arbitrary: kb g) simp_all

lemma updateLoop_drain:
  assumes "drain_exact n (currentSlice g)"
    and "of_nat n \<le> currentSlice g" and "currentSlice g < of_nat n + 1"
  shows "updateLoop kb g =
    Some (kbd_drop n kb, (simSteps n kb g)\<lparr>currentSlice := currentSlice g - of_nat n\<rparr>)"
  using assms
proof (induction n arbitrary: kb g)
  case 0
  then show ?case by (subst updateLoop.simps) (simp add: ftSlice_def)
next
  case (Suc n)
  define g1 where "g1 = (simStep (kb 0) g)\<lparr>currentSlice := currentSlice g - 1\<rparr>"
  have c: "currentSlice g1 = currentSlice g - 1" by (simp add: g1_def)
  have "updateLoop kb g = updateLoop (kbd_tail kb) g1"
    using Suc.prems by (subst updateLoop.simps) (simp add: ftSlice_def g1_def)
  also have "\<dots> = Some (kbd_drop n (kbd_tail kb),
      (simSteps n (kbd_tail kb) g1)\<lparr>currentSlice := currentSlice g1 - of_nat n\<rparr>)"
    using Suc.prems by (intro Suc.IH) (simp_all add: c ftSlice_def)
  finally show ?case
    by (simp add: g1_def simSteps_currentSlice_update c algebra_simps)
qed

lemma entities_updates:
  "entities (g\<lparr>currentSlice := v\<rparr>) = entities g"
  "entities (g\<lparr>lastFT := v\<rparr>) = entities g"
  by (simp_all add: entities_def)

lemma updatePhase_exact:
  assumes "fadd (currentSlice g) d = currentSlice g + d"
    and "drain_exact (nat \<lfloor>currentSlice g + d\<rfloor>) (currentSlice g + d)"
    and "0 \<le> currentSlice g + d"
  shows "\<exists>g1. updatePhase kb (g\<lparr>lastFT := d\<rparr>) = Some (kbd_drop (nat \<lfloor>currentSlice g + d\<rfloor>) kb, g1) \<and>
           entities g1 = entities (simSteps (nat \<lfloor>currentSlice g + d\<rfloor>) kb g) \<and>
           currentSlice g1 = currentSlice g + d - of_int \<lfloor>currentSlice g + d\<rfloor>"
proof -
  define c where "c = currentSlice g + d"
  define n where "n = nat \<lfloor>c\<rfloor>"
  define g0 where "g0 = g\<lparr>lastFT := d, currentSlice := c\<rparr>"
  have n: "of_nat n = (of_int \<lfloor>c\<rfloor> :: real)"
    using assms(3) by (simp add: n_def c_def)
  have "updateLoop kb g0 =
      Some (kbd_drop n kb, (simSteps n kb g0)\<lparr>currentSlice := currentSlice g0 - of_nat n\<rparr>)"
  proof (rule updateLoop_drain)
    show "drain_exact n (currentSlice g0)" using assms(2) by (simp add: g0_def n_def c_def)
    show "of_nat n \<le> currentSlice g0" by (simp add: g0_def n)
    show "currentSlice g0 < of_nat n + 1" by (simp add: g0_def n)
  qed
  moreover have "updatePhase kb (g\<lparr>lastFT := d\<rparr>) = updateLoop kb g0"
    using assms(1) by (simp add: updatePhase_def g0_def c_def)
  moreover have "entities (simSteps n kb g0) = entities (simSteps n kb g)"
    by (rule entities_simSteps_cong) (simp add: g0_def entities_def)
  ultimately show ?thesis
    by (simp add: entities_updates n c_def[symmetric] n_def[symmetric] g0_def)
qed

lemma feedFrames_exact:
  assumes "0 \<le> currentSlice g" and "currentSlice g < 1"
    and "\<forall>d \<in> set ds. 0 \<le> d" and "no_rounding (currentSlice g) ds"
  shows "\<exists>g1. feedFrames ds kb g = Some (kbd_drop (nat \<lfloor>currentSlice g + sum_list ds\<rfloor>) kb, g1) \<and>
           entities g1 = entities (simSteps (nat \<lfloor>currentSlice g + sum_list ds\<rfloor>) kb g) \<and>
           currentSlice g1 = currentSlice g + sum_list ds - of_int \<lfloor>currentSlice g + sum_list ds\<rfloor>"
  using assms
proof (induction ds arbitrary: kb g)
  case Nil
  then have "\<lfloor>currentSlice g\<rfloor> = 0" by (simp add: floor_eq_iff)
  then show ?case by simp
next
  case (Cons d ds)
  define c where "c = currentSlice g + d"
  define n where "n = nat \<lfloor>c\<rfloor>"
  have d: "0 \<le> d" and ds: "\<forall>d \<in> set ds. 0 \<le> d" using Cons.prems(3) by simp_all
  have c0: "0 \<le> c" using Cons.prems(1) d by (simp add: c_def)
  have n: "of_nat n = (of_int \<lfloor>c\<rfloor> :: real)" using c0 by (simp add: n_def)
  from Cons.prems(4) have ex: "fadd (currentSlice g) d = c" "drain_exact n c"
    "no_rounding (c - of_int \<lfloor>c\<rfloor>) ds"
    by (simp_all add: c_def n_def)
  obtain g1 where g1: "updatePhase kb (g\<lparr>lastFT := d\<rparr>) = Some (kbd_drop n kb, g1)"
    "entities g1 = entities (simSteps n kb g)" "currentSlice g1 = c - of_int \<lfloor>c\<rfloor>"
    using updatePhase_exact[of g d kb] ex c0 by (auto simp: c_def n_def)
  have r: "0 \<le> currentSlice g1" "currentSlice g1 < 1"
    unfolding g1(3) by linarith+
  define m where "m = nat \<lfloor>currentSlice g1 + sum_list ds\<rfloor>"
  obtain g2 where g2: "feedFrames ds (kbd_drop n kb) g1 = Some (kbd_drop m (kbd_drop n kb), g2)"
    "entities g2 = entities (simSteps m (kbd_drop n kb) g1)"
    "currentSlice g2 = currentSlice g1 + sum_list ds - of_int \<lfloor>currentSlice g1 + sum_list ds\<rfloor>"
    using Cons.IH[of g1 "kbd_drop n kb"] r ds ex(3) g1(3) by (auto simp: m_def)
  have s0: "0 \<le> sum_list ds" using ds by (simp add: sum_list_nonneg)
  have fl: "\<lfloor>currentSlice g1 + sum_list ds\<rfloor> = \<lfloor>c + sum_list ds\<rfloor> - \<lfloor>c\<rfloor>"
    unfolding g1(3) by (simp add: algebra_simps flip: floor_diff_of_int)
  have a: "0 \<le> \<lfloor>c + sum_list ds\<rfloor> - \<lfloor>c\<rfloor>" using s0 by (simp add: floor_mono)
  have b: "0 \<le> \<lfloor>c\<rfloor>" using c0 by simp
  have "n + m = nat (\<lfloor>c\<rfloor> + (\<lfloor>c + sum_list ds\<rfloor> - \<lfloor>c\<rfloor>))"
    unfolding n_def m_def fl by (rule nat_add_distrib[symmetric, OF b a])
  then have nm: "n + m = nat \<lfloor>c + sum_list ds\<rfloor>" by simp
  have "entities (simSteps m (kbd_drop n kb) g1) =
        entities (simSteps m (kbd_drop n kb) (simSteps n kb g))"
    by (rule entities_simSteps_cong) (rule g1(2))
  then have e: "entities g2 = entities (simSteps (n + m) kb g)"
    by (simp add: g2(2) simSteps_add)
  have t: "currentSlice g + sum_list (d # ds) = c + sum_list ds"
    by (simp add: c_def)
  have "feedFrames (d # ds) kb g = Some (kbd_drop (n + m) kb, g2)"
    by (simp add: g1(1) g2(1) kbd_drop_add)
  then show ?case
    unfolding t using e g2(3) fl g1(3) by (auto simp: nm)
qed

lemma updatePhase_steps:
  assumes "drain_exact n (fadd (currentSlice g) d)"
    and "of_nat n \<le> fadd (currentSlice g) d" and "fadd (currentSlice g) d < of_nat n + 1"
  shows "updatePhase kb (g\<lparr>lastFT := d\<rparr>) =
    Some (kbd_drop n kb,
      (simSteps n kb (g\<lparr>lastFT := d\<rparr>))\<lparr>currentSlice := fadd (currentSlice g) d - of_nat n\<rparr>)"
proof -
  define g0 where "g0 = g\<lparr>lastFT := d, currentSlice := fadd (currentSlice g) d\<rparr>"
  have "updateLoop kb g0 =
      Some (kbd_drop n kb, (simSteps n kb g0)\<lparr>currentSlice := currentSlice g0 - of_nat n\<rparr>)"
    by (rule updateLoop_drain) (use assms in \<open>simp_all add: g0_def\<close>)
  moreover have "g0 = (g\<lparr>lastFT := d\<rparr>)\<lparr>currentSlice := fadd (currentSlice g) d\<rparr>"
    by (simp add: g0_def)
  ultimately show ?thesis
    by (simp add: updatePhase_def simSteps_currentSlice_update)
qed

subsection \<open>One more step moves the ball\<close>

text \<open>
  While the ball is within 1000 units of the origin, rounding its position changes it by
  less than the ball moves in a step: after one more step the ball is elsewhere.
\<close>

lemma fl32_ballVelocity: "fl32 ballVelocity = ballVelocity" "fl32 (- ballVelocity) = - ballVelocity"
  by (simp_all add: ballVelocity_value fl32_def expo_def rne_def compute_floorlog)

lemma speed_ok_testBricks: "speed_ok b \<Longrightarrow> speed_ok (snd (testBricks bs b))"
proof (induction bs arbitrary: b)
  case Nil
  then show ?case by simp
next
  case (Cons k bs)
  have "speed_ok (snd (testCollision_brick k b))"
    using sign_only_testCollision_brick[OF Cons.prems] Cons.prems sign_only_speed_ok by blast
  from Cons.IH[OF this] show ?case by (simp add: split_beta)
qed

lemma speed_ok_simStep: "speed_ok (ball g) \<Longrightarrow> speed_ok (ball (simStep ks g))"
proof -
  assume a: "speed_ok (ball g)"
  have "speed_ok (Ball_update ftStep (ball g))"
    using a sign_only_Ball_update sign_only_speed_ok by blast
  then have "speed_ok (testCollision_paddle (Paddle_update ftStep ks (paddle g))
      (Ball_update ftStep (ball g)))"
    using sign_only_testCollision_paddle sign_only_speed_ok by blast
  then show ?thesis
    by (simp add: simStep_def Let_def split_beta speed_ok_testBricks)
qed

lemma ball_x_simStep:
  "ball_x (ball (simStep ks g)) =
     fadd (ball_x (ball g)) (fmul (vec_x (ball_velocity (ball g))) ftStep)"
  by (simp add: ball_x_def ball_simStep ball_shape_Ball_update ball_moved_def ball_setPosition_def
      vec_move_def vec_scale_def)

lemma simStep_moves_ball:
  assumes "speed_ok (ball g)" and "\<bar>ball_x (ball g)\<bar> \<le> 1000"
  shows "ball_x (ball (simStep ks g)) \<noteq> ball_x (ball g)"
    and "\<bar>ball_x (ball (simStep ks g))\<bar> \<le> \<bar>ball_x (ball g)\<bar> + 1"
proof -
  define x where "x = ball_x (ball g)"
  define v where "v = vec_x (ball_velocity (ball g))"
  have v: "v = ballVelocity \<or> v = - ballVelocity"
    using speed_ok_components(1)[OF assms(1)] by (simp add: v_def)
  then have "fmul v ftStep = v"
    by (auto simp: fmul_def ftStep_def fl32_ballVelocity)
  then have x': "ball_x (ball (simStep ks g)) = fl32 (x + v)"
    by (simp add: ball_x_simStep x_def v_def fadd_def)
  have b: "\<bar>v\<bar> = 13421773 / 33554432" using v by (auto simp: ballVelocity_value)
  then have "\<bar>x + v\<bar> < 1024" using assms(2) by (simp add: x_def abs_if split: if_splits)
  then have e: "\<bar>fl32 (x + v) - (x + v)\<bar> \<le> 1 / 2 ^ 15" by (rule fl32_error)
  show "ball_x (ball (simStep ks g)) \<noteq> ball_x (ball g)"
    unfolding x' x_def[symmetric] using e b by (auto simp: abs_if split: if_splits)
  show "\<bar>ball_x (ball (simStep ks g))\<bar> \<le> \<bar>ball_x (ball g)\<bar> + 1"
    unfolding x' x_def[symmetric] using e b by (auto simp: abs_if split: if_splits)
qed

lemma simSteps_Suc_right: "simSteps (Suc n) kb g = simStep (kb n) (simSteps n kb g)"
proof (induction n arbitrary: kb g)
  case 0
  show ?case by simp
next
  case (Suc n)
  have "simSteps (Suc (Suc n)) kb g = simSteps (Suc n) (kbd_tail kb) (simStep (kb 0) g)"
    by simp
  also have "\<dots> = simStep (kbd_tail kb n) (simSteps n (kbd_tail kb) (simStep (kb 0) g))"
    by (rule Suc.IH)
  finally show ?case by (simp add: kbd_tail_def)
qed

lemma simSteps_ball_bound:
  assumes "speed_ok (ball g)" and "\<bar>ball_x (ball g)\<bar> + of_nat n \<le> 1000"
  shows "speed_ok (ball (simSteps n kb g)) \<and>
         \<bar>ball_x (ball (simSteps n kb g))\<bar> \<le> \<bar>ball_x (ball g)\<bar> + of_nat n"
  using assms
proof (induction n)
  case 0
  then show ?case by simp
next
  case (Suc n)
  then have ih: "speed_ok (ball (simSteps n kb g))"
    "\<bar>ball_x (ball (simSteps n kb g))\<bar> \<le> \<bar>ball_x (ball g)\<bar> + of_nat n"
    by simp_all
  have "\<bar>ball_x (ball (simSteps n kb g))\<bar> \<le> 1000" using ih(2) Suc.prems(2) by simp
  from simStep_moves_ball(2)[OF ih(1) this, of "kb n"] speed_ok_simStep[OF ih(1), of "kb n"] ih(2)
  show ?case unfolding simSteps_Suc_right by simp
qed

lemma one_more_step_differs:
  assumes "speed_ok (ball g)" and "\<bar>ball_x (ball g)\<bar> + of_nat n \<le> 1000"
  shows "entities (simSteps (Suc n) kb g) \<noteq> entities (simSteps n kb g)"
proof -
  from simSteps_ball_bound[OF assms, of kb]
  have "speed_ok (ball (simSteps n kb g))" "\<bar>ball_x (ball (simSteps n kb g))\<bar> \<le> 1000"
    using assms(2) by simp_all
  from simStep_moves_ball(1)[OF this, of "kb n"]
  show ?thesis unfolding simSteps_Suc_right by (auto simp: entities_def)
qed

subsection \<open>Runs of frames that round, and runs that do not\<close>

lemma new_Game_ball: "speed_ok (ball new_Game)" "ball_x (ball new_Game) = 400"
  by (simp_all add: new_Game_def speed_ok_mk_Ball ball_x_def windowWidth_def float_of_int_exact)
    (simp add: mk_Ball_def)

lemma drain_exact_numeral:
  "drain_exact (numeral k) c \<longleftrightarrow>
     fsub c ftSlice = c - ftSlice \<and> drain_exact (pred_numeral k) (c - ftSlice)"
  by (simp add: numeral_eq_Suc)

lemmas fl32_eval = fl32_def expo_def rne_def compute_floorlog

text \<open>
  From an accumulator of \<open>2^25\<close> the subtraction of \<open>ftSlice\<close> rounds back to \<open>2^25\<close>,
  and the loop of \<^verbatim>\<open>updatePhase\<close> does not end.
\<close>

lemma fsub_stuck: "fsub 33554432 ftSlice = 33554432"
  by (simp add: fsub_def ftSlice_def fl32_def expo_def rne_def compute_floorlog)

lemma updateLoop_stuck:
  assumes "currentSlice g = 33554432"
  shows "updateLoop kb g = None"
proof (cases "updateLoop kb g")
  case None
  then show ?thesis .
next
  case (Some y)
  have False using assms
  proof (induction kb g y rule: updateLoop.raw_induct)
    case (1 loop kb g y)
    define g1 where "g1 = (simStep (kb 0) g)\<lparr>currentSlice := fsub (currentSlice g) ftSlice\<rparr>"
    have "loop (kbd_tail kb) g1 = Some y"
      using "1.hyps" "1.prems" by (simp add: g1_def ftSlice_def)
    moreover have "currentSlice g1 = 33554432"
      using "1.prems" by (simp add: g1_def fsub_stuck)
    ultimately show ?case by (rule "1.IH")
  qed (rule Some)
  then show ?thesis ..
qed

text \<open>
  Two frames, of which the first makes \<open>n1\<close> passes and the second \<open>n2\<close>; the additions
  to the accumulator may round.
\<close>

lemma two_frames:
  assumes "fadd (currentSlice g) d1 = c1"
    and "drain_exact n1 c1" and "of_nat n1 \<le> c1" and "c1 < of_nat n1 + 1"
    and "fadd (c1 - of_nat n1) d2 = c2"
    and "drain_exact n2 c2" and "of_nat n2 \<le> c2" and "c2 < of_nat n2 + 1"
  shows "map_option (entities \<circ> snd) (feedFrames [d1, d2] kb g) =
    Some (entities (simSteps (n1 + n2) kb g))"
proof -
  define g1 where "g1 = (simSteps n1 kb (g\<lparr>lastFT := d1\<rparr>))\<lparr>currentSlice := c1 - of_nat n1\<rparr>"
  define g2 where "g2 = (simSteps n2 (kbd_drop n1 kb) (g1\<lparr>lastFT := d2\<rparr>))
      \<lparr>currentSlice := c2 - of_nat n2\<rparr>"
  have 1: "updatePhase kb (g\<lparr>lastFT := d1\<rparr>) = Some (kbd_drop n1 kb, g1)"
    unfolding g1_def assms(1)[symmetric]
    by (rule updatePhase_steps) (simp_all only: assms)
  have c: "currentSlice g1 = c1 - of_nat n1" by (simp add: g1_def)
  have 2: "updatePhase (kbd_drop n1 kb) (g1\<lparr>lastFT := d2\<rparr>) =
      Some (kbd_drop n2 (kbd_drop n1 kb), g2)"
    unfolding g2_def assms(5)[symmetric] c[symmetric]
    by (rule updatePhase_steps) (simp_all only: c assms)
  have "entities g1 = entities (simSteps n1 kb g)"
    unfolding g1_def entities_updates
    by (rule entities_simSteps_cong) (simp add: entities_updates)
  then have e1: "entities (g1\<lparr>lastFT := d2\<rparr>) = entities (simSteps n1 kb g)"
    by (simp add: entities_updates)
  have "entities g2 = entities (simSteps n2 (kbd_drop n1 kb) (simSteps n1 kb g))"
    unfolding g2_def entities_updates by (rule entities_simSteps_cong) (rule e1)
  then have "entities g2 = entities (simSteps (n1 + n2) kb g)"
    by (simp only: simSteps_add)
  then show ?thesis
    using 1 2 by simp
qed

lemma frames_12:
  "map_option (entities \<circ> snd)
     (feedFrames [9437183 / 1048576, 8388609 / 2097152] idle_keyboard new_Game) =
   Some (entities (simSteps 12 idle_keyboard new_Game))"
proof -
  have "map_option (entities \<circ> snd)
     (feedFrames [9437183 / 1048576, 8388609 / 2097152] idle_keyboard new_Game) =
     Some (entities (simSteps (8 + 4) idle_keyboard new_Game))"
  proof (rule two_frames)
    show "fadd (currentSlice new_Game) (9437183 / 1048576) = 9437183 / 1048576"
      by (simp add: new_Game_def fadd_def fl32_eval)
    show "drain_exact 8 (9437183 / 1048576)"
      by (simp add: drain_exact_numeral ftSlice_def fsub_def fl32_eval)
    show "fadd (9437183 / 1048576 - of_nat 8) (8388609 / 2097152) = 10485759 / 2097152"
      by (simp add: fadd_def fl32_eval)
    show "drain_exact 4 (10485759 / 2097152)"
      by (simp add: drain_exact_numeral ftSlice_def fsub_def fl32_eval)
  qed simp_all
  then show ?thesis by simp
qed

lemma frames_13:
  "map_option (entities \<circ> snd)
     (feedFrames [8388609 / 2097152, 9437183 / 1048576] idle_keyboard new_Game) =
   Some (entities (simSteps 13 idle_keyboard new_Game))"
proof -
  have "map_option (entities \<circ> snd)
     (feedFrames [8388609 / 2097152, 9437183 / 1048576] idle_keyboard new_Game) =
     Some (entities (simSteps (4 + 9) idle_keyboard new_Game))"
  proof (rule two_frames)
    show "fadd (currentSlice new_Game) (8388609 / 2097152) = 8388609 / 2097152"
      by (simp add: new_Game_def fadd_def fl32_eval)
    show "drain_exact 4 (8388609 / 2097152)"
      by (simp add: drain_exact_numeral ftSlice_def fsub_def fl32_eval)
    show "fadd (8388609 / 2097152 - of_nat 4) (9437183 / 1048576) = 9"
      by (simp add: fadd_def fl32_eval)
    show "drain_exact 9 9"
      by (simp add: drain_exact_numeral ftSlice_def fsub_def fl32_exact)
  qed simp_all
  then show ?thesis by simp
qed

text \<open>
  Claim C3, as stated, fails. The frame durations \<open>9 - 2^-20\<close> and \<open>4 + 2^-21\<close> are both
  single-precision numbers, and in either order they add up to the same total time.
  From the new game, with no key held, the longer frame first gives 12 simulation
  steps, and the shorter frame first gives 13: there the accumulator holds \<open>2^-21\<close>
  after the first frame, and adding \<open>9 - 2^-20\<close> rounds up to 9. The entities after 12
  and after 13 steps differ.
\<close>

theorem fixed_step_determinism_counterexample:
  "sum_list [9437183 / 1048576, 8388609 / 2097152] =
     sum_list [8388609 / 2097152, 9437183 / 1048576 :: float] \<and>
   map_option (entities \<circ> snd)
     (feedFrames [9437183 / 1048576, 8388609 / 2097152] idle_keyboard new_Game) =
     Some (entities (simSteps 12 idle_keyboard new_Game)) \<and>
   map_option (entities \<circ> snd)
     (feedFrames [8388609 / 2097152, 9437183 / 1048576] idle_keyboard new_Game) =
     Some (entities (simSteps 13 idle_keyboard new_Game)) \<and>
   entities (simSteps 13 idle_keyboard new_Game) \<noteq> entities (simSteps 12 idle_keyboard new_Game) \<and>
   map_option (entities \<circ> snd)
     (feedFrames [9437183 / 1048576, 8388609 / 2097152] idle_keyboard new_Game) \<noteq>
   map_option (entities \<circ> snd)
     (feedFrames [8388609 / 2097152, 9437183 / 1048576] idle_keyboard new_Game)"
proof -
  have "entities (simSteps (Suc 12) idle_keyboard new_Game) \<noteq>
      entities (simSteps 12 idle_keyboard new_Game)"
    by (rule one_more_step_differs) (simp_all add: new_Game_ball)
  then have d: "entities (simSteps 13 idle_keyboard new_Game) \<noteq>
      entities (simSteps 12 idle_keyboard new_Game)"
    by (simp only: eval_nat_numeral) simp
  show ?thesis
    unfolding frames_12 frames_13 using d by simp
qed

text \<open>
  Claim C3, amended. Take an accumulator in \<open>[0, ftSlice)\<close>, the same game and the same
  keyboard states for the successive simulation steps, and two runs of frames with
  non-negative durations and the same total. If no addition to the accumulator and no
  subtraction of \<open>ftSlice\<close> from it rounds in either run, then both runs end, after the
  same number of simulation steps, \<open>\<lfloor>currentSlice + total\<rfloor>\<close>, with the same entities,
  the same accumulator and the same keyboard states left. One frame of \<open>2 * ftStep\<close>
  and two frames of \<open>ftStep\<close> are such runs.
\<close>

theorem fixed_step_determinism_when_exact:
  assumes "0 \<le> currentSlice g" and "currentSlice g < ftSlice"
    and "\<forall>d \<in> set ds1. 0 \<le> d" and "\<forall>d \<in> set ds2. 0 \<le> d"
    and "sum_list ds1 = sum_list ds2"
    and "no_rounding (currentSlice g) ds1" and "no_rounding (currentSlice g) ds2"
  shows "map_option outcome (feedFrames ds1 kb g) = map_option outcome (feedFrames ds2 kb g) \<and>
    map_option outcome (feedFrames ds1 kb g) =
      Some (kbd_drop (nat \<lfloor>currentSlice g + sum_list ds1\<rfloor>) kb,
            entities (simSteps (nat \<lfloor>currentSlice g + sum_list ds1\<rfloor>) kb g),
            currentSlice g + sum_list ds1 - of_int \<lfloor>currentSlice g + sum_list ds1\<rfloor>)"
proof -
  have c: "currentSlice g < 1" using assms(2) by (simp add: ftSlice_def)
  from feedFrames_exact[OF assms(1) c assms(3) assms(6), of kb]
  have 1: "map_option outcome (feedFrames ds1 kb g) =
      Some (kbd_drop (nat \<lfloor>currentSlice g + sum_list ds1\<rfloor>) kb,
            entities (simSteps (nat \<lfloor>currentSlice g + sum_list ds1\<rfloor>) kb g),
            currentSlice g + sum_list ds1 - of_int \<lfloor>currentSlice g + sum_list ds1\<rfloor>)"
    by (auto simp: outcome_def)
  from feedFrames_exact[OF assms(1) c assms(4) assms(7), of kb]
  have 2: "map_option outcome (feedFrames ds2 kb g) =
      Some (kbd_drop (nat \<lfloor>currentSlice g + sum_list ds2\<rfloor>) kb,
            entities (simSteps (nat \<lfloor>currentSlice g + sum_list ds2\<rfloor>) kb g),
            currentSlice g + sum_list ds2 - of_int \<lfloor>currentSlice g + sum_list ds2\<rfloor>)"
    by (auto simp: outcome_def)
  show ?thesis by (simp only: 1 2 assms(5))
qed

theorem fixed_step_determinism_when_exact_witness:
  "0 \<le> currentSlice new_Game \<and> currentSlice new_Game < ftSlice \<and>
   sum_list [2] = sum_list [1, 1 :: float] \<and>
   no_rounding (currentSlice new_Game) [2] \<and> no_rounding (currentSlice new_Game) [1, 1] \<and>
   map_option outcome (feedFrames [2] idle_keyboard new_Game) =
     map_option outcome (feedFrames [1, 1] idle_keyboard new_Game) \<and>
   map_option outcome (feedFrames [2] idle_keyboard new_Game) =
     Some (kbd_drop 2 idle_keyboard, entities (simSteps 2 idle_keyboard new_Game), 0)"
proof -
  have c: "currentSlice new_Game = 0" by (simp add: new_Game_def)
  have n1: "no_rounding (currentSlice new_Game) [2]"
    by (simp add: c drain_exact_numeral ftSlice_def fsub_def fadd_def fl32_exact)
  have n2: "no_rounding (currentSlice new_Game) [1, 1]"
    by (simp add: c ftSlice_def fsub_def fadd_def fl32_exact)
  have h: "0 \<le> currentSlice new_Game" "currentSlice new_Game < ftSlice"
    "\<forall>d \<in> set [2 :: float]. 0 \<le> d" "\<forall>d \<in> set [1, 1 :: float]. 0 \<le> d"
    "sum_list [2] = sum_list [1, 1 :: float]"
    by (simp_all add: c ftSlice_def)
  have k: "nat \<lfloor>currentSlice new_Game + sum_list [2]\<rfloor> = 2"
    "currentSlice new_Game + sum_list [2] - of_int \<lfloor>currentSlice new_Game + sum_list [2]\<rfloor> = 0"
    by (simp_all add: c)
  show ?thesis
    using h(1,2,5) n1 n2
      fixed_step_determinism_when_exact [OF h n1 n2, of idle_keyboard, unfolded k]
    by blast
qed

section \<open>Every state of the game\<close>

text \<open>
  In every state the game passes through, the ball is one of the reachable balls, the
  paddle satisfies \<open>paddle_inv\<close>, and no brick of the collection is destroyed; and
  whatever the loops return is such a state.
\<close>

lemma pollEvents_entities:
  "ball (pollEvents evs g) = ball g" "paddle (pollEvents evs g) = paddle g"
  "bricks (pollEvents evs g) = bricks g"
  by (induction evs arbitrary: g) simp_all

lemma reachable_testBricks: "reachable_ball b \<Longrightarrow> reachable_ball (snd (testBricks bs b))"
proof (induction bs arbitrary: b)
  case Nil
  then show ?case by simp
next
  case (Cons k bs)
  have "reachable_ball (snd (testCollision_brick k b))"
    using Cons.prems by (rule reachable_ball.brick_tested)
  from Cons.IH[OF this] show ?case by (simp add: split_beta)
qed

lemma reachable_ball_simStep: "reachable_ball (ball g) \<Longrightarrow> reachable_ball (ball (simStep ks g))"
  by (simp add: simStep_def Let_def split_beta reachable_testBricks
      reachable_ball.updated reachable_ball.paddle_tested)

lemma new_Game_bricks: "k \<in> set (bricks new_Game) \<Longrightarrow> \<not> destroyed k"
  by (auto simp: new_Game_def brick_at_def mk_Brick_def)

lemma reachable_game_entities:
  assumes "reachable_game g"
  shows "reachable_ball (ball g) \<and> paddle_inv (paddle g) \<and> (\<forall>k \<in> set (bricks g). \<not> destroyed k)"
  using assms
proof (induction rule: reachable_game.induct)
  case constructed
  show ?case
    using paddle_inv_init new_Game_bricks
    by (auto simp: new_Game_def intro: reachable_ball.created)
next
  case (started g)
  then show ?case by simp
next
  case (input g evs ks)
  then show ?case
    by (auto simp: inputPhase_def Let_def pollEvents_entities intro: reachable_ball.reset)
next
  case (accumulated g)
  then show ?case by simp
next
  case (stepped g ks)
  then show ?case
    by (auto simp: reachable_ball_simStep paddle_simStep paddle_inv_step bricks_simStep)
next
  case (timed g ft)
  then show ?case by simp
qed

lemma updateLoop_reachable:
  assumes "updateLoop kb g = Some y" and "reachable_game g"
  shows "reachable_game (snd y)"
  using assms(2)
proof (induction kb g y rule: updateLoop.raw_induct)
  case (1 loop kb g y)
  show ?case
  proof (cases "currentSlice g \<ge> ftSlice")
    case True
    with "1.hyps" have "loop (kbd_tail kb)
        ((simStep (kb 0) g)\<lparr>currentSlice := fsub (currentSlice g) ftSlice\<rparr>) = Some y"
      by simp
    from "1.IH"[OF this reachable_game.stepped[OF "1.prems" True]] show ?thesis .
  next
    case False
    with "1.hyps" "1.prems" show ?thesis by auto
  qed
qed fact

lemma iteration_reachable:
  assumes "iteration inp g = Some g1" and "reachable_game g"
  shows "reachable_game g1"
proof -
  define g0 where "g0 = inputPhase (frame_events inp) (frame_keys inp) g"
  have r: "reachable_game (g0\<lparr>currentSlice := fadd (currentSlice g0) (lastFT g0)\<rparr>)"
    unfolding g0_def by (intro reachable_game.accumulated reachable_game.input assms(2))
  from assms(1) obtain y where y: "updatePhase (frame_keyboard inp) g0 = Some y"
    and g1: "g1 = (snd y)\<lparr>lastFT := frame_time inp\<rparr>"
    by (auto simp: iteration_def g0_def split: option.splits)
  have "reachable_game (snd y)"
    using y r unfolding updatePhase_def by (rule updateLoop_reachable)
  then show ?thesis unfolding g1 by (rule reachable_game.timed)
qed

lemma runLoop_reachable:
  assumes "runLoop env g = Some y" and "reachable_game g"
  shows "reachable_game y"
  using assms(2)
proof (induction env g y rule: runLoop.raw_induct)
  case (1 loop env g y)
  show ?case
  proof (cases "running g")
    case True
    with "1.hyps" obtain g1 where "iteration (env 0) g = Some g1"
      and l: "loop (\<lambda>i. env (Suc i)) g1 = Some y"
      by (auto simp: bind_eq_Some_conv)
    then have "reachable_game g1" using "1.prems" iteration_reachable by blast
    from "1.IH"[OF l this] show ?thesis .
  next
    case False
    with "1.hyps" "1.prems" show ?thesis by simp
  qed
qed fact

end
